theory Spec2Isabelle
  imports Complex_Main "HOL-Library.Word"
begin

section \<open>The geocoding field of the Mapseed platform\<close>

text \<open>
  This theory embeds the React function component \<open>GeocodingField\<close> of
  \<^verbatim>\<open>src/base/static/components/molecules/form-field-types/geocoding-field.tsx\<close>.
  The component owns two state hooks (\<open>isGeocoding\<close>, \<open>isWithGeocodingError\<close>) and one
  ref (\<open>isMounted\<close>); it issues forward and reverse geocoding requests with \<open>fetch\<close>,
  reacts to their settlement in promise continuations, and dismisses its error banner
  with a timer.  The embedding is a state machine: a record of the component's state, one
  function per function or effect of the source, and a \<open>step\<close> function that delivers one
  event of the host (a render with new props, a DOM event, the settlement of a pending
  request, the passing of time, the unmount).
\<close>

subsection \<open>JavaScript values\<close>

text \<open>
  The body of a geocoding response is whatever \<open>response.json()\<close> parsed; the source reads
  it with member accesses guarded by \<open>&&\<close>.  Strings are lists of code units below 256;
  numbers are the rationals their literals denote (the component only tests them for
  truthiness and passes them on).
\<close>

datatype jsval =
    JUndefined
  | JNull
  | JBool bool
  | JNum rat
  | JStr string
  | JArr "jsval list"
  | JObj "(string \<times> jsval) list"

datatype error = TypeError | URIError

fun truthy :: "jsval \<Rightarrow> bool" where
  "truthy JUndefined = False"
| "truthy JNull = False"
| "truthy (JBool b) = b"
| "truthy (JNum q) = (q \<noteq> 0)"
| "truthy (JStr s) = (s \<noteq> [])"
| "truthy (JArr xs) = True"
| "truthy (JObj kvs) = True"

text \<open>
  \<open>v.k\<close> for an identifier \<open>k\<close> that no prototype defines (the source reads
  \<open>features\<close>, \<open>geometry\<close>, \<open>coordinates\<close> and \<open>place_name\<close>): a \<open>TypeError\<close> on
  \<open>undefined\<close> and \<open>null\<close>, the own property of an object, \<open>undefined\<close> otherwise.
\<close>

fun getProp :: "jsval \<Rightarrow> string \<Rightarrow> error + jsval" where
  "getProp JUndefined k = Inl TypeError"
| "getProp JNull k = Inl TypeError"
| "getProp (JObj kvs) k = Inr (case map_of kvs k of None \<Rightarrow> JUndefined | Some v \<Rightarrow> v)"
| "getProp (JBool b) k = Inr JUndefined"
| "getProp (JNum q) k = Inr JUndefined"
| "getProp (JStr s) k = Inr JUndefined"
| "getProp (JArr xs) k = Inr JUndefined"

text \<open>The property key of an array index: its decimal digits.\<close>

definition decimalDigit :: "nat \<Rightarrow> char" where
  "decimalDigit n = ''0123456789'' ! (n mod 10)"

fun indexKey :: "nat \<Rightarrow> string" where
  "indexKey n =
     (if n < 10 then [decimalDigit n]
      else indexKey (n div 10) @ [decimalDigit n])"

text \<open>\<open>v[i]\<close> for a literal index \<open>i\<close>.\<close>

fun getIndex :: "jsval \<Rightarrow> nat \<Rightarrow> error + jsval" where
  "getIndex JUndefined i = Inl TypeError"
| "getIndex JNull i = Inl TypeError"
| "getIndex (JArr xs) i = Inr (if i < length xs then xs ! i else JUndefined)"
| "getIndex (JStr s) i = Inr (if i < length s then JStr [s ! i] else JUndefined)"
| "getIndex (JObj kvs) i =
     Inr (case map_of kvs (indexKey i) of None \<Rightarrow> JUndefined | Some v \<Rightarrow> v)"
| "getIndex (JBool b) i = Inr JUndefined"
| "getIndex (JNum q) i = Inr JUndefined"

subsection \<open>Host functions\<close>

text \<open>
  \<open>encodeURIComponent\<close> on strings of code units below 256, the strings of the state
  machine: an unreserved character stands for itself, every other one is replaced by the
  percent-escapes of its UTF-8 octets (one octet below 128, two from 128 on).  On these
  strings the function never raises.
\<close>

definition unreserved :: "char \<Rightarrow> bool" where
  "unreserved c \<longleftrightarrow>
     c \<in> set (''ABCDEFGHIJKLMNOPQRSTUVWXYZabcdefghijklmnopqrstuvwxyz0123456789-_.!~*()''
              @ [CHR 0x27])"

definition hexDigits :: string where
  "hexDigits = ''0123456789ABCDEF''"

definition hexDigit :: "nat \<Rightarrow> char" where
  "hexDigit n = hexDigits ! (n mod 16)"

definition percentEscape :: "nat \<Rightarrow> string" where
  "percentEscape b = [CHR ''%'', hexDigit (b div 16), hexDigit b]"

definition encodeChar :: "char \<Rightarrow> string" where
  "encodeChar c =
     (let n = (of_char c :: nat) in
      if unreserved c then [c]
      else if n < 128 then percentEscape n
      else percentEscape (192 + n div 64) @ percentEscape (128 + n mod 64))"

definition encodeURIComponent :: "string \<Rightarrow> string" where
  "encodeURIComponent s = concat (map encodeChar s)"

text \<open>
  \<open>encodeURIComponent\<close> on every string, given as its UTF-16 code units.  A code unit
  that is an unreserved character stands for itself.  Otherwise the code point at this
  place is read: a code unit that is no surrogate is its own code point, a lead surrogate
  followed by a trail surrogate makes one code point of the two, and a trail surrogate
  first or a lead surrogate alone raises a \<open>URIError\<close> (the result \<open>None\<close>).  The code
  point is replaced by the percent-escapes of its one to four UTF-8 octets.
\<close>

definition utf8Octets :: "nat \<Rightarrow> nat list" where
  "utf8Octets cp =
     (if cp < 0x80 then [cp]
      else if cp < 0x800 then [0xC0 + cp div 0x40, 0x80 + cp mod 0x40]
      else if cp < 0x10000 then
        [0xE0 + cp div 0x1000, 0x80 + cp div 0x40 mod 0x40, 0x80 + cp mod 0x40]
      else
        [0xF0 + cp div 0x40000, 0x80 + cp div 0x1000 mod 0x40,
         0x80 + cp div 0x40 mod 0x40, 0x80 + cp mod 0x40])"

definition escapeOctets :: "nat list \<Rightarrow> string" where
  "escapeOctets bs = concat (map percentEscape bs)"

definition isLeadSurrogate :: "nat \<Rightarrow> bool" where
  "isLeadSurrogate u \<longleftrightarrow> 0xD800 \<le> u \<and> u \<le> 0xDBFF"

definition isTrailSurrogate :: "nat \<Rightarrow> bool" where
  "isTrailSurrogate u \<longleftrightarrow> 0xDC00 \<le> u \<and> u \<le> 0xDFFF"

definition surrogatePair :: "nat \<Rightarrow> nat \<Rightarrow> nat" where
  "surrogatePair lead trail = (lead - 0xD800) * 0x400 + (trail - 0xDC00) + 0x10000"

fun encodeUnits :: "nat list \<Rightarrow> string option" where
  "encodeUnits [] = Some []"
| "encodeUnits (u # us) =
     (if u < 0x80 \<and> unreserved (char_of u) then
        map_option (\<lambda>r. char_of u # r) (encodeUnits us)
      else if isTrailSurrogate u then None
      else if \<not> isLeadSurrogate u then
        map_option (\<lambda>r. escapeOctets (utf8Octets u) @ r) (encodeUnits us)
      else
        (case us of
           [] \<Rightarrow> None
         | t # ts \<Rightarrow>
             if isTrailSurrogate t then
               map_option (\<lambda>r. escapeOctets (utf8Octets (surrogatePair u t)) @ r)
                 (encodeUnits ts)
             else None))"

definition encodeURIComponentOfUnits :: "16 word list \<Rightarrow> string option" where
  "encodeURIComponentOfUnits v = encodeUnits (map unat v)"

text \<open>
  What it is to be URL-encoded, said without the encoder: the text is read back.  Every
  \<open>%\<close> with its two hexadecimal digits is an octet and every other character, which
  must be ASCII, is its own octet; the octets are decoded as UTF-8, where an overlong
  form, a surrogate and a value above 10FFFF are refused; the code points are written as
  UTF-16 code units.
\<close>

definition hexValue :: "char \<Rightarrow> nat option" where
  "hexValue c =
     (let n = (of_char c :: nat) in
      if 48 \<le> n \<and> n \<le> 57 then Some (n - 48)
      else if 65 \<le> n \<and> n \<le> 70 then Some (n - 55)
      else if 97 \<le> n \<and> n \<le> 102 then Some (n - 87)
      else None)"

fun percentDecode :: "string \<Rightarrow> nat list option" where
  "percentDecode [] = Some []"
| "percentDecode (c # cs) =
     (if c = CHR ''%'' then
        (case cs of
           h1 # h2 # r \<Rightarrow>
             (case hexValue h1 of
                None \<Rightarrow> None
              | Some a \<Rightarrow>
                  (case hexValue h2 of
                     None \<Rightarrow> None
                   | Some b \<Rightarrow> map_option (\<lambda>bs. (16 * a + b) # bs) (percentDecode r)))
         | _ \<Rightarrow> None)
      else if (of_char c :: nat) < 0x80 then
        map_option (\<lambda>bs. of_char c # bs) (percentDecode cs)
      else None)"

definition isContinuation :: "nat \<Rightarrow> bool" where
  "isContinuation b \<longleftrightarrow> 0x80 \<le> b \<and> b < 0xC0"

fun utf8Decode :: "nat list \<Rightarrow> nat list option" where
  "utf8Decode [] = Some []"
| "utf8Decode (b # bs) =
     (if b < 0x80 then map_option (\<lambda>cps. b # cps) (utf8Decode bs)
      else if 0xC2 \<le> b \<and> b < 0xE0 then
        (case bs of
           c1 # r \<Rightarrow>
             if isContinuation c1
             then map_option (\<lambda>cps. ((b - 0xC0) * 0x40 + (c1 - 0x80)) # cps) (utf8Decode r)
             else None
         | _ \<Rightarrow> None)
      else if 0xE0 \<le> b \<and> b < 0xF0 then
        (case bs of
           c1 # c2 # r \<Rightarrow>
             (let cp = (b - 0xE0) * 0x1000 + (c1 - 0x80) * 0x40 + (c2 - 0x80) in
              if isContinuation c1 \<and> isContinuation c2 \<and> 0x800 \<le> cp
                 \<and> \<not> (0xD800 \<le> cp \<and> cp \<le> 0xDFFF)
              then map_option (\<lambda>cps. cp # cps) (utf8Decode r)
              else None)
         | _ \<Rightarrow> None)
      else if 0xF0 \<le> b \<and> b < 0xF5 then
        (case bs of
           c1 # c2 # c3 # r \<Rightarrow>
             (let cp = (b - 0xF0) * 0x40000 + (c1 - 0x80) * 0x1000 + (c2 - 0x80) * 0x40
                         + (c3 - 0x80) in
              if isContinuation c1 \<and> isContinuation c2 \<and> isContinuation c3
                 \<and> 0x10000 \<le> cp \<and> cp < 0x110000
              then map_option (\<lambda>cps. cp # cps) (utf8Decode r)
              else None)
         | _ \<Rightarrow> None)
      else None)"

definition utf16Units :: "nat \<Rightarrow> nat list" where
  "utf16Units cp =
     (if cp < 0x10000 then [cp]
      else [0xD800 + (cp - 0x10000) div 0x400, 0xDC00 + (cp - 0x10000) mod 0x400])"

definition decodeURIComponent :: "string \<Rightarrow> 16 word list option" where
  "decodeURIComponent t =
     (case percentDecode t of
        None \<Rightarrow> None
      | Some bs \<Rightarrow>
          (case utf8Decode bs of
             None \<Rightarrow> None
           | Some cps \<Rightarrow> Some (map of_nat (concat (map utf16Units cps)))))"

text \<open>
  The code points of a string of UTF-16 code units, if it is well formed: no trail
  surrogate comes first and every lead surrogate is followed by a trail surrogate.
\<close>

fun codePoints :: "nat list \<Rightarrow> nat list option" where
  "codePoints [] = Some []"
| "codePoints (u # us) =
     (if isTrailSurrogate u then None
      else if \<not> isLeadSurrogate u then map_option (\<lambda>cps. u # cps) (codePoints us)
      else
        (case us of
           [] \<Rightarrow> None
         | t # ts \<Rightarrow>
             if isTrailSurrogate t
             then map_option (\<lambda>cps. surrogatePair u t # cps) (codePoints ts)
             else None))"

definition scalarValue :: "nat \<Rightarrow> bool" where
  "scalarValue cp \<longleftrightarrow> cp < 0x110000 \<and> \<not> (0xD800 \<le> cp \<and> cp \<le> 0xDFFF)"

text \<open>The encoding of one code point.\<close>

definition encodePoint :: "nat \<Rightarrow> string" where
  "encodePoint cp =
     (if cp < 0x80 \<and> unreserved (char_of cp) then [char_of cp]
      else escapeOctets (utf8Octets cp))"

text \<open>\<open>xs.join(sep)\<close> on the string images of the elements.\<close>

fun join :: "string \<Rightarrow> string list \<Rightarrow> string" where
  "join sep [] = []"
| "join sep [x] = x"
| "join sep (x # y # ys) = x @ sep @ join sep (y # ys)"

text \<open>
  What the build and the host supply: the constant \<open>MAP_PROVIDER_TOKEN\<close> (declared, not
  defined, in the source) and the conversion of a number to a string that template
  literals, \<open>+\<close> and \<open>join\<close> apply.
\<close>

record env =
  MAP_PROVIDER_TOKEN :: string
  numberToString :: "rat \<Rightarrow> string"

subsection \<open>Props\<close>

text \<open>
  \<open>MapViewport\<close> and \<open>MapConfig\<close> are declared in \<open>state/ducks/map\<close>; the component reads
  the viewport's \<open>latitude\<close> and \<open>longitude\<close> and the configuration's \<open>geocodeHint\<close> and
  \<open>geocodeBoundingBox\<close>, both arrays that are joined with commas when present.  The
  dependency lists of \<open>useEffect\<close> and \<open>useCallback\<close> compare objects by identity, so
  every object carries the reference it lives at.
\<close>

record MapViewport =
  viewportRef :: nat
  latitude :: rat
  longitude :: rat

record NumberArray =
  arrayRef :: nat
  items :: "rat list"

record Props =
  formId :: string
  name :: string
  placeholder :: "string option"
  hasOnKeyDown :: bool
  isTriggeringGeocode :: bool
  valueProp :: string
  mapViewport :: MapViewport
  geocodeBoundingBox :: "NumberArray option"
  geocodeHint :: "NumberArray option"
  isMapDraggingOrZooming :: bool

definition sameRef :: "NumberArray option \<Rightarrow> NumberArray option \<Rightarrow> bool" where
  "sameRef a b =
     (case (a, b) of
        (None, None) \<Rightarrow> True
      | (Some x, Some y) \<Rightarrow> arrayRef x = arrayRef y
      | _ \<Rightarrow> False)"

subsection \<open>State and observable actions\<close>

text \<open>
  \<open>trace\<close> lists, in program order, the calls the component makes to the outside: the
  state setters, \<open>fetch\<close>, \<open>eventEmitter.emit("setMapViewport", ...)\<close> with its latitude,
  longitude, zoom and transition duration, the parent's \<open>onChange\<close> and \<open>onKeyDown\<close>, and
  \<open>console.error\<close>.  \<open>fetch\<close> is called with a URL alone, which is a GET request.  The
  calls of \<open>setTimeout\<close> are made by an effect, which React runs after the statements that
  follow the setter; they are recorded in \<open>timers\<close>, with the time they come due, and not
  in the trace.
\<close>

datatype action =
    SetIsGeocoding bool
  | SetIsWithGeocodingError bool
  | Fetch string
  | EmitSetMapViewport jsval jsval nat nat
  | OnChange string jsval
  | OnKeyDown
  | ConsoleError string

text \<open>
  A pending request is the URL fetched and the continuation chained to it; the reverse
  continuation closes over the \<open>name\<close> prop of the render whose effect issued it.
\<close>

datatype continuation = ForwardGeocode | ReverseGeocode string

datatype outcome = Rejected | Resolved jsval

record state =
  props :: Props
  isGeocoding :: bool
  isWithGeocodingError :: bool
  isMounted :: bool
  pending :: "(string \<times> continuation) list"
  timers :: "nat list"
  now :: nat
  trace :: "action list"

definition act :: "action \<Rightarrow> state \<Rightarrow> state" where
  "act a s = s\<lparr>trace := trace s @ [a]\<rparr>"

text \<open>
  The effect with dependency \<open>[isWithGeocodingError]\<close>: it runs after a render in which
  the flag differs from the previous render, and starts a 5000 ms timer when the flag is
  set.  The timer is never cleared: the effect returns no cleanup.
\<close>

definition errorTimerEffect :: "state \<Rightarrow> state" where
  "errorTimerEffect s =
     (if isWithGeocodingError s
      then s\<lparr>timers := timers s @ [now s + 5000]\<rparr>
      else s)"

text \<open>
  The setters of the two state hooks.  The fields \<open>isGeocoding\<close> and
  \<open>isWithGeocodingError\<close> hold the value last passed to the setter, whether or not the
  component is still mounted.  A call that changes the error flag is followed by a render
  and, after it, by the error timer effect, before the next statement of a continuation
  runs; a call that does not change the flag causes no render.
\<close>

definition setIsGeocoding :: "bool \<Rightarrow> state \<Rightarrow> state" where
  "setIsGeocoding b s = act (SetIsGeocoding b) (s\<lparr>isGeocoding := b\<rparr>)"

definition setIsWithGeocodingError :: "bool \<Rightarrow> state \<Rightarrow> state" where
  "setIsWithGeocodingError b s =
     (let s1 = act (SetIsWithGeocodingError b) (s\<lparr>isWithGeocodingError := b\<rparr>) in
      if b \<noteq> isWithGeocodingError s then errorTimerEffect s1 else s1)"

definition fetch :: "string \<Rightarrow> continuation \<Rightarrow> state \<Rightarrow> state" where
  "fetch url k s = act (Fetch url) (s\<lparr>pending := pending s @ [(url, k)]\<rparr>)"

subsection \<open>Request URLs\<close>

definition endpoint :: string where
  "endpoint = ''https://api.mapbox.com/geocoding/v5/mapbox.places/''"

definition joinNumbers :: "env \<Rightarrow> NumberArray \<Rightarrow> string" where
  "joinNumbers e a = join '','' (map (numberToString e) (items a))"

text \<open>The template literal of \<open>doGeocode\<close>; an array, even an empty one, is truthy.\<close>

definition forwardUrl :: "env \<Rightarrow> Props \<Rightarrow> string" where
  "forwardUrl e p =
     endpoint @ encodeURIComponent (valueProp p) @ ''.json?access_token=''
       @ MAP_PROVIDER_TOKEN e
       @ (case geocodeHint p of
            Some h \<Rightarrow> ''&proximity='' @ joinNumbers e h
          | None \<Rightarrow> [])
       @ (case geocodeBoundingBox p of
            Some b \<Rightarrow> ''&bbox='' @ joinNumbers e b
          | None \<Rightarrow> [])"

text \<open>The template literal of the reverse geocoding effect.\<close>

definition reverseUrl :: "env \<Rightarrow> MapViewport \<Rightarrow> string" where
  "reverseUrl e v =
     endpoint @ numberToString e (longitude v) @ '','' @ numberToString e (latitude v)
       @ ''.json?access_token='' @ MAP_PROVIDER_TOKEN e"

subsection \<open>Forward geocoding\<close>

text \<open>The synchronous part of \<open>doGeocode\<close>, up to the call of \<open>fetch\<close>.\<close>

definition doGeocode :: "env \<Rightarrow> state \<Rightarrow> state" where
  "doGeocode e s =
     (let s1 = setIsGeocoding True s;
          s2 = setIsWithGeocodingError False s1
      in fetch (forwardUrl e (props s)) ForwardGeocode s2)"

text \<open>
  \<open>doGeocode\<close> for a \<open>value\<close> prop that may be any string, given as its UTF-16 code
  units; the hint and the bounding box are those of the props.  When
  \<open>encodeURIComponent\<close> raises, the two setters have been called and \<open>fetch\<close> has not.
  \<open>forwardUrlOf\<close> is the template literal around the encoded query.
\<close>

definition forwardUrlOf :: "env \<Rightarrow> string \<Rightarrow> Props \<Rightarrow> string" where
  "forwardUrlOf e query p =
     endpoint @ query @ ''.json?access_token='' @ MAP_PROVIDER_TOKEN e
       @ (case geocodeHint p of
            Some h \<Rightarrow> ''&proximity='' @ joinNumbers e h
          | None \<Rightarrow> [])
       @ (case geocodeBoundingBox p of
            Some b \<Rightarrow> ''&bbox='' @ joinNumbers e b
          | None \<Rightarrow> [])"

definition doGeocodeOfUnits :: "env \<Rightarrow> 16 word list \<Rightarrow> state \<Rightarrow> state \<times> error option" where
  "doGeocodeOfUnits e v s =
     (let s1 = setIsGeocoding True s;
          s2 = setIsWithGeocodingError False s1
      in case encodeURIComponentOfUnits v of
           None \<Rightarrow> (s2, Some URIError)
         | Some query \<Rightarrow> (fetch (forwardUrlOf e query (props s)) ForwardGeocode s2, None))"

text \<open>\<open>data.features && data.features[0] && data.features[0].m\<close> for a member \<open>m\<close>.\<close>

definition firstFeatureMember :: "string \<Rightarrow> jsval \<Rightarrow> error + jsval" where
  "firstFeatureMember m data =
     (case getProp data ''features'' of
        Inl err \<Rightarrow> Inl err
      | Inr fs \<Rightarrow>
          if \<not> truthy fs then Inr fs
          else (case getIndex fs 0 of
                  Inl err \<Rightarrow> Inl err
                | Inr f \<Rightarrow> if \<not> truthy f then Inr f else getProp f m))"

text \<open>\<open>locationGeometry.coordinates[i]\<close>.\<close>

definition coordinate :: "jsval \<Rightarrow> nat \<Rightarrow> error + jsval" where
  "coordinate g i =
     (case getProp g ''coordinates'' of
        Inl err \<Rightarrow> Inl err
      | Inr c \<Rightarrow> getIndex c i)"

text \<open>
  The callback of the second \<open>then\<close> of \<open>doGeocode\<close>.  It returns the state it has reached
  and the error it threw, if any: the arguments of \<open>emit\<close> are evaluated after the two
  setters have been called.
\<close>

definition forwardThen :: "jsval \<Rightarrow> state \<Rightarrow> state \<times> error option" where
  "forwardThen data s =
     (case firstFeatureMember ''geometry'' data of
        Inl err \<Rightarrow> (s, Some err)
      | Inr locationGeometry \<Rightarrow>
          if truthy locationGeometry \<and> isMounted s then
            (let s1 = setIsGeocoding False s;
                 s2 = setIsWithGeocodingError False s1
             in case coordinate locationGeometry 1 of
                  Inl err \<Rightarrow> (s2, Some err)
                | Inr lat \<Rightarrow>
                    (case coordinate locationGeometry 0 of
                       Inl err \<Rightarrow> (s2, Some err)
                     | Inr lng \<Rightarrow> (act (EmitSetMapViewport lat lng 14 1000) s2, None)))
          else if isMounted s then
            (setIsWithGeocodingError True (setIsGeocoding False s), None)
          else (s, None))"

definition forwardCatch :: "state \<Rightarrow> state" where
  "forwardCatch s =
     act (ConsoleError ''There was an error while geocoding: '')
       (if isMounted s then setIsWithGeocodingError True (setIsGeocoding False s) else s)"

text \<open>
  \<open>fetch(url).then(response => response.json()).then(...).catch(...)\<close>: the \<open>catch\<close>
  handler receives a rejection of \<open>fetch\<close> or of \<open>json()\<close> and whatever the \<open>then\<close>
  callback throws.
\<close>

definition settleForward :: "outcome \<Rightarrow> state \<Rightarrow> state" where
  "settleForward out s =
     (case out of
        Rejected \<Rightarrow> forwardCatch s
      | Resolved data \<Rightarrow>
          (case forwardThen data s of
             (s', Some err) \<Rightarrow> forwardCatch s'
           | (s', None) \<Rightarrow> s'))"

subsection \<open>Reverse geocoding\<close>

text \<open>The effect with dependencies \<open>[mapViewport, isMapDraggingOrZooming]\<close>.\<close>

definition reverseGeocodeEffect :: "env \<Rightarrow> state \<Rightarrow> state" where
  "reverseGeocodeEffect e s =
     (if isMapDraggingOrZooming (props s) then s
      else fetch (reverseUrl e (mapViewport (props s))) (ReverseGeocode (name (props s)))
             (setIsGeocoding True s))"

definition reverseThen :: "string \<Rightarrow> jsval \<Rightarrow> state \<Rightarrow> state \<times> error option" where
  "reverseThen nm data s =
     (case firstFeatureMember ''place_name'' data of
        Inl err \<Rightarrow> (s, Some err)
      | Inr placeName \<Rightarrow>
          if truthy placeName \<and> isMounted s then
            (act (OnChange nm placeName)
               (setIsWithGeocodingError False (setIsGeocoding False s)), None)
          else if isMounted s then
            (setIsWithGeocodingError True (setIsGeocoding False s), None)
          else (s, None))"

definition reverseCatch :: "state \<Rightarrow> state" where
  "reverseCatch s =
     act (ConsoleError ''There was an error while reverse geocoding: '')
       (if isMounted s then setIsWithGeocodingError True (setIsGeocoding False s) else s)"

definition settleReverse :: "string \<Rightarrow> outcome \<Rightarrow> state \<Rightarrow> state" where
  "settleReverse nm out s =
     (case out of
        Rejected \<Rightarrow> reverseCatch s
      | Resolved data \<Rightarrow>
          (case reverseThen nm data s of
             (s', Some err) \<Rightarrow> reverseCatch s'
           | (s', None) \<Rightarrow> s'))"

fun settle :: "continuation \<Rightarrow> outcome \<Rightarrow> state \<Rightarrow> state" where
  "settle ForwardGeocode out s = settleForward out s"
| "settle (ReverseGeocode nm) out s = settleReverse nm out s"

subsection \<open>The remaining effects\<close>

text \<open>The effect with dependencies \<open>[isTriggeringGeocode, doGeocode]\<close>.\<close>

definition triggerEffect :: "env \<Rightarrow> state \<Rightarrow> state" where
  "triggerEffect e s = (if isTriggeringGeocode (props s) then doGeocode e s else s)"

text \<open>The callback of \<open>setTimeout\<close> in the error timer effect.\<close>

definition timerCallback :: "state \<Rightarrow> state" where
  "timerCallback s = setIsWithGeocodingError False s"

text \<open>The cleanup returned by the effect with the empty dependency list.\<close>

definition unmountCleanup :: "state \<Rightarrow> state" where
  "unmountCleanup s = s\<lparr>isMounted := False\<rparr>"

subsection \<open>Rendering\<close>

text \<open>
  What the component returns: the spinner, the search button with its \<open>onClick\<close> handler
  (absent when the button is not rendered), the text input with its attributes and
  handlers, and the opacity of the error banner.  The placeholder is the translation key
  handed to \<open>t\<close> with its default.
\<close>

datatype handler = CallDoGeocode | CallOnKeyDown | CallOnChange

record view =
  spinner :: bool
  buttonOnClick :: "handler option"
  inputName :: string
  inputValue :: string
  inputPlaceholderKey :: string
  inputPlaceholderDefault :: "string option"
  inputOnBlur :: handler
  inputOnKeyDown :: handler
  inputOnChange :: handler
  bannerOpacity :: nat

definition render :: "state \<Rightarrow> view" where
  "render s =
     \<lparr>spinner = isGeocoding s,
      buttonOnClick = (if \<not> isGeocoding s then Some CallDoGeocode else None),
      inputName = name (props s),
      inputValue = valueProp (props s),
      inputPlaceholderKey = ''geocodingFieldPlaceholder'' @ formId (props s) @ name (props s),
      inputPlaceholderDefault = placeholder (props s),
      inputOnBlur = CallDoGeocode,
      inputOnKeyDown = CallOnKeyDown,
      inputOnChange = CallOnChange,
      bannerOpacity = (if isWithGeocodingError s then 1 else 0)\<rparr>"

text \<open>
  Running a handler of the view; \<open>text\<close> is \<open>e.target.value\<close> of the DOM event, which only
  the \<open>onChange\<close> handler reads.
\<close>

fun runHandler :: "env \<Rightarrow> handler \<Rightarrow> string \<Rightarrow> state \<Rightarrow> state" where
  "runHandler e CallDoGeocode text s = doGeocode e s"
| "runHandler e CallOnKeyDown text s = (if hasOnKeyDown (props s) then act OnKeyDown s else s)"
| "runHandler e CallOnChange text s = act (OnChange (inputName (render s)) (JStr text)) s"

subsection \<open>Events\<close>

text \<open>
  The first render runs every effect: the reverse geocoding effect, the trigger effect,
  the error timer effect (the flag is false, so it does nothing) and the effect that
  registers the unmount cleanup.
\<close>

definition initial :: "Props \<Rightarrow> state" where
  "initial p =
     \<lparr>props = p, isGeocoding = False, isWithGeocodingError = False, isMounted = True,
      pending = [], timers = [], now = 0, trace = []\<rparr>"

definition mount :: "env \<Rightarrow> Props \<Rightarrow> state" where
  "mount e p = errorTimerEffect (triggerEffect e (reverseGeocodeEffect e (initial p)))"

text \<open>
  \<open>doGeocode\<close> is memoised on \<open>[value, geocodeBoundingBox, geocodeHint]\<close>: it is a new
  function exactly when one of them changed.
\<close>

definition doGeocodeChanged :: "Props \<Rightarrow> Props \<Rightarrow> bool" where
  "doGeocodeChanged old p \<longleftrightarrow>
     valueProp old \<noteq> valueProp p
     \<or> \<not> sameRef (geocodeBoundingBox old) (geocodeBoundingBox p)
     \<or> \<not> sameRef (geocodeHint old) (geocodeHint p)"

text \<open>A render with new props, followed by the effects whose dependencies changed.\<close>

definition rerender :: "env \<Rightarrow> Props \<Rightarrow> state \<Rightarrow> state" where
  "rerender e p s =
     (let old = props s;
          s1 = s\<lparr>props := p\<rparr>;
          s2 = (if viewportRef (mapViewport old) \<noteq> viewportRef (mapViewport p)
                   \<or> isMapDraggingOrZooming old \<noteq> isMapDraggingOrZooming p
                then reverseGeocodeEffect e s1 else s1)
      in if isTriggeringGeocode old \<noteq> isTriggeringGeocode p \<or> doGeocodeChanged old p
         then triggerEffect e s2 else s2)"

text \<open>
  Time passes: the clock moves on by \<open>d\<close> milliseconds and the callback of every timer
  that has come due runs.
\<close>

definition advance :: "nat \<Rightarrow> state \<Rightarrow> state" where
  "advance d s =
     (let t = now s + d;
          due = filter (\<lambda>x. x \<le> t) (timers s);
          s1 = s\<lparr>now := t, timers := filter (\<lambda>x. \<not> x \<le> t) (timers s)\<rparr>
      in fold (\<lambda>x. timerCallback) due s1)"

datatype event =
    Render Props
  | Click
  | Blur
  | KeyDown
  | Change string
  | Settle nat outcome
  | Advance nat
  | Unmount

fun step :: "env \<Rightarrow> state \<Rightarrow> event \<Rightarrow> state" where
  "step e s (Render p) = rerender e p s"
| "step e s Click =
     (case buttonOnClick (render s) of
        None \<Rightarrow> s
      | Some h \<Rightarrow> runHandler e h [] s)"
| "step e s Blur = runHandler e (inputOnBlur (render s)) [] s"
| "step e s KeyDown = runHandler e (inputOnKeyDown (render s)) [] s"
| "step e s (Change text) = runHandler e (inputOnChange (render s)) text s"
| "step e s (Settle i out) =
     (if i < length (pending s)
      then settle (snd (pending s ! i)) out
             (s\<lparr>pending := take i (pending s) @ drop (Suc i) (pending s)\<rparr>)
      else s)"
| "step e s (Advance d) = advance d s"
| "step e s Unmount = unmountCleanup s"

definition run :: "env \<Rightarrow> state \<Rightarrow> event list \<Rightarrow> state" where
  "run e s evs = foldl (step e) s evs"

text \<open>The requests issued between two states, read off the trace.\<close>

fun fetchUrl :: "action \<Rightarrow> string option" where
  "fetchUrl (Fetch url) = Some url"
| "fetchUrl _ = None"

definition fetched :: "action list \<Rightarrow> string list" where
  "fetched as = List.map_filter fetchUrl as"



subsection \<open>Classifying responses\<close>

text \<open>
  A response with a valid first feature: an object whose \<open>features\<close> array starts with an
  object whose \<open>geometry\<close> is an object whose \<open>coordinates\<close> array has a first and a
  second entry.  The result is the pair of the two, first entry first.
\<close>

fun firstTwo :: "jsval \<Rightarrow> (jsval \<times> jsval) option" where
  "firstTwo (JArr (c0 # c1 # cs)) = Some (c0, c1)"
| "firstTwo _ = None"

definition firstFeatureCoordinates :: "jsval \<Rightarrow> (jsval \<times> jsval) option" where
  "firstFeatureCoordinates data =
     (case data of
        JObj kvs \<Rightarrow>
          (case map_of kvs ''features'' of
             Some (JArr (JObj f # fs)) \<Rightarrow>
               (case map_of f ''geometry'' of
                  Some (JObj g) \<Rightarrow>
                    (case map_of g ''coordinates'' of
                       Some c \<Rightarrow> firstTwo c
                     | None \<Rightarrow> None)
                | _ \<Rightarrow> None)
           | _ \<Rightarrow> None)
      | _ \<Rightarrow> None)"

text \<open>
  A lookup succeeds when the request resolves to a body in which the member the
  continuation reads from the first feature is there and truthy and, for a forward
  lookup, in which the two coordinates can be read.  Every other settlement is a failed
  lookup: a rejection (network or parse failure), a body that cannot be read, or a body
  without a usable feature.
\<close>

definition readable :: "error + jsval \<Rightarrow> bool" where
  "readable r = (case r of Inl err \<Rightarrow> False | Inr v \<Rightarrow> True)"

fun lookupSucceeds :: "continuation \<Rightarrow> outcome \<Rightarrow> bool" where
  "lookupSucceeds k Rejected = False"
| "lookupSucceeds ForwardGeocode (Resolved data) =
     (case firstFeatureMember ''geometry'' data of
        Inl err \<Rightarrow> False
      | Inr g \<Rightarrow> truthy g \<and> readable (coordinate g 1) \<and> readable (coordinate g 0))"
| "lookupSucceeds (ReverseGeocode nm) (Resolved data) =
     (case firstFeatureMember ''place_name'' data of
        Inl err \<Rightarrow> False
      | Inr v \<Rightarrow> truthy v)"

subsection \<open>Classifying events\<close>

text \<open>
  The event settles a pending request of the mounted component, and the lookup succeeds
  (\<open>ok\<close> true) or fails (\<open>ok\<close> false).
\<close>

fun lookupSettles :: "bool \<Rightarrow> state \<Rightarrow> event \<Rightarrow> bool" where
  "lookupSettles ok s (Settle i out) =
     (i < length (pending s) \<and> isMounted s
      \<and> lookupSucceeds (snd (pending s ! i)) out = ok)"
| "lookupSettles ok s (Render p) = False"
| "lookupSettles ok s Click = False"
| "lookupSettles ok s Blur = False"
| "lookupSettles ok s KeyDown = False"
| "lookupSettles ok s (Change text) = False"
| "lookupSettles ok s (Advance d) = False"
| "lookupSettles ok s Unmount = False"

text \<open>
  The event starts a forward lookup, that is, it calls \<open>doGeocode\<close>: a blur of the input, a
  click on the search button when it is rendered, or a render after which the trigger
  effect runs with \<open>isTriggeringGeocode\<close> set.
\<close>

fun startsForwardLookup :: "state \<Rightarrow> event \<Rightarrow> bool" where
  "startsForwardLookup s Blur = True"
| "startsForwardLookup s Click = (buttonOnClick (render s) \<noteq> None)"
| "startsForwardLookup s (Render p) =
     ((isTriggeringGeocode (props s) \<noteq> isTriggeringGeocode p \<or> doGeocodeChanged (props s) p)
      \<and> isTriggeringGeocode p)"
| "startsForwardLookup s (Settle i out) = False"
| "startsForwardLookup s KeyDown = False"
| "startsForwardLookup s (Change text) = False"
| "startsForwardLookup s (Advance d) = False"
| "startsForwardLookup s Unmount = False"

text \<open>The event lets time pass until a pending timer has come due.\<close>

fun timerComesDue :: "state \<Rightarrow> event \<Rightarrow> bool" where
  "timerComesDue s (Advance d) = (\<exists>t\<in>set (timers s). t \<le> now s + d)"
| "timerComesDue s (Render p) = False"
| "timerComesDue s Click = False"
| "timerComesDue s Blur = False"
| "timerComesDue s KeyDown = False"
| "timerComesDue s (Change text) = False"
| "timerComesDue s (Settle i out) = False"
| "timerComesDue s Unmount = False"

text \<open>The time that passes during a sequence of events.\<close>

fun elapsed :: "event list \<Rightarrow> nat" where
  "elapsed [] = 0"
| "elapsed (Advance d # evs) = d + elapsed evs"
| "elapsed (Render p # evs) = elapsed evs"
| "elapsed (Click # evs) = elapsed evs"
| "elapsed (Blur # evs) = elapsed evs"
| "elapsed (KeyDown # evs) = elapsed evs"
| "elapsed (Change text # evs) = elapsed evs"
| "elapsed (Settle i out # evs) = elapsed evs"
| "elapsed (Unmount # evs) = elapsed evs"

text \<open>
  A run in which no forward lookup starts and no lookup succeeds: each event is judged in
  the state it arrives in.
\<close>

fun quietRun :: "env \<Rightarrow> state \<Rightarrow> event list \<Rightarrow> bool" where
  "quietRun e s [] = True"
| "quietRun e s (ev # evs) =
     (\<not> startsForwardLookup s ev \<and> \<not> lookupSettles True s ev
      \<and> quietRun e (step e s ev) evs)"

text \<open>
  What a failed lookup leaves behind in a mounted component, whichever branch handled it:
  the loading flag cleared, the error flag set, nothing fetched, and a timer of 5000 ms
  started if the error flag was clear before.
\<close>

abbreviation failedLookup :: "state \<Rightarrow> state \<Rightarrow> bool" where
  "failedLookup s s' \<equiv>
     \<not> isGeocoding s' \<and> isWithGeocodingError s' \<and> props s' = props s
     \<and> pending s' = pending s \<and> now s' = now s
     \<and> fetched (trace s') = fetched (trace s)
     \<and> isMounted s'
     \<and> (\<not> isWithGeocodingError s \<longrightarrow> timers s' = timers s @ [now s + 5000])"

subsection \<open>A concrete configuration\<close>

text \<open>
  The string of a number that is an integer (of fewer than 22 digits): an optional minus
  sign and the decimal digits.
\<close>

definition integerToString :: "rat \<Rightarrow> string" where
  "integerToString q =
     (if q < 0 then ''-'' else []) @ indexKey (nat \<bar>\<lfloor>q\<rfloor>\<bar>)"

definition exampleEnv :: env where
  "exampleEnv = \<lparr>MAP_PROVIDER_TOKEN = ''pk.test'', numberToString = integerToString\<rparr>"

definition exampleProps :: Props where
  "exampleProps =
     \<lparr>formId = ''noForm'', name = ''address'', placeholder = None, hasOnKeyDown = False,
      isTriggeringGeocode = False, valueProp = ''123 Main St'',
      mapViewport = \<lparr>viewportRef = 0, latitude = 47, longitude = - 122\<rparr>,
      geocodeBoundingBox = None, geocodeHint = None, isMapDraggingOrZooming = True\<rparr>"

text \<open>Bodies of responses: one feature at longitude -122, latitude 47; no feature.\<close>

definition exampleFeature :: jsval where
  "exampleFeature =
     JObj [(''type'', JStr ''FeatureCollection''),
           (''features'',
            JArr [JObj [(''place_name'', JStr ''123 Main St, Seattle''),
                        (''geometry'',
                         JObj [(''type'', JStr ''Point''),
                               (''coordinates'', JArr [JNum (- 122), JNum 47])])]])]"

definition exampleEmpty :: jsval where
  "exampleEmpty = JObj [(''type'', JStr ''FeatureCollection''), (''features'', JArr [])]"

section \<open>Properties\<close>

subsection \<open>Auxiliary facts\<close>

lemmas setter_defs =
  act_def errorTimerEffect_def setIsGeocoding_def setIsWithGeocodingError_def fetch_def Let_def

lemmas settle_defs =
  settleForward_def settleReverse_def forwardThen_def reverseThen_def forwardCatch_def
  reverseCatch_def

lemma isMounted_doGeocode: "isMounted (doGeocode e s) = isMounted s"
  by (simp add: doGeocode_def setter_defs)

lemma isMounted_settle: "isMounted (settle k out s) = isMounted s"
  by (cases k; cases out)
     (auto simp: settle_defs setter_defs split: sum.splits option.splits prod.splits)

lemma isMounted_fold_timer: "isMounted (fold (\<lambda>x. timerCallback) xs s) = isMounted s"
  by (induction xs arbitrary: s) (simp_all add: timerCallback_def setter_defs)

lemma isMounted_step: "isMounted (step e s ev) = (isMounted s \<and> ev \<noteq> Unmount)"
  by (cases ev)
     (simp_all add: isMounted_doGeocode isMounted_settle isMounted_fold_timer rerender_def
        reverseGeocodeEffect_def triggerEffect_def render_def unmountCleanup_def advance_def
        setter_defs)

lemma isMounted_run: "isMounted (run e s evs) = (isMounted s \<and> Unmount \<notin> set evs)"
  unfolding run_def by (induction evs arbitrary: s) (auto simp: isMounted_step)

lemma isMounted_mount: "isMounted (mount e p)"
  by (simp add: mount_def initial_def isMounted_doGeocode reverseGeocodeEffect_def
      triggerEffect_def setter_defs)

lemma settle_unmounted:
  "\<not> isMounted s \<Longrightarrow>
     isGeocoding (settle k out s) = isGeocoding s
     \<and> isWithGeocodingError (settle k out s) = isWithGeocodingError s
     \<and> timers (settle k out s) = timers s
     \<and> props (settle k out s) = props s
     \<and> pending (settle k out s) = pending s"
  by (cases k; cases out)
     (auto simp: settle_defs setter_defs split: sum.splits option.splits prod.splits)

lemmas example_defs =
  exampleEnv_def exampleProps_def exampleFeature_def exampleEmpty_def integerToString_def
  decimalDigit_def

lemmas url_defs =
  forwardUrl_def reverseUrl_def endpoint_def joinNumbers_def encodeURIComponent_def
  encodeChar_def unreserved_def percentEscape_def hexDigit_def hexDigits_def

lemmas machine_defs =
  run_def mount_def initial_def rerender_def reverseGeocodeEffect_def triggerEffect_def
  doGeocode_def render_def unmountCleanup_def advance_def timerCallback_def
  doGeocodeChanged_def sameRef_def

subsection \<open>The mount guard\<close>

text \<open>
  Claim C1.  When a pending forward or reverse geocoding request settles, resolved or
  rejected, after the component has unmounted, its continuation changes neither the
  loading flag nor the error flag, and what the component renders stays the same.  The
  mount flag is true after mounting; a step changes it only if the step is the unmount,
  which sets it to false; so along every run from the mount it is true exactly until the
  first unmount and false ever after.
\<close>

theorem mount_guard:
  "(\<not> isMounted s \<longrightarrow>
      isGeocoding (step e s (Settle i out)) = isGeocoding s
      \<and> isWithGeocodingError (step e s (Settle i out)) = isWithGeocodingError s
      \<and> render (step e s (Settle i out)) = render s)
   \<and> isMounted (mount e p)
   \<and> isMounted (step e s ev) = (isMounted s \<and> ev \<noteq> Unmount)
   \<and> isMounted (run e (mount e p) evs) = (Unmount \<notin> set evs)"
  by (simp add: settle_unmounted isMounted_mount isMounted_step isMounted_run render_def)

theorem mount_guard_witness:
  "\<not> isMounted (run exampleEnv (mount exampleEnv exampleProps) [Blur, Unmount])
   \<and> isGeocoding
        (step exampleEnv (run exampleEnv (mount exampleEnv exampleProps) [Blur, Unmount])
           (Settle 0 Rejected))
   \<and> \<not> isWithGeocodingError
        (step exampleEnv (run exampleEnv (mount exampleEnv exampleProps) [Blur, Unmount])
           (Settle 0 Rejected))"
  using mount_guard [of "run exampleEnv (mount exampleEnv exampleProps) [Blur, Unmount]"
      exampleEnv 0 Rejected exampleProps Unmount "[Blur, Unmount]"]
  by (simp add: machine_defs setter_defs example_defs)

subsection \<open>The settle gate\<close>










subsection \<open>Forward geocoding\<close>

lemma valid_feature_read:
  assumes "firstFeatureCoordinates data = Some (lng, lat)"
  shows "\<exists>g. firstFeatureMember ''geometry'' data = Inr g \<and> truthy g
           \<and> coordinate g 1 = Inr lat \<and> coordinate g 0 = Inr lng"
  using assms
  by (auto simp: firstFeatureCoordinates_def firstFeatureMember_def coordinate_def
      elim!: firstTwo.elims
      split: jsval.splits option.splits list.splits)

text \<open>
  Claim C3.  When a forward geocoding request of a mounted component resolves to a body
  with a valid first feature, the continuation calls the two setters and then emits
  \<open>setMapViewport\<close> exactly once: the latitude is the second entry of the feature's
  coordinates, the longitude the first, both as they came, the zoom is 14 and the
  transition duration 1000.
\<close>

theorem forward_success_emits:
  assumes "isMounted s" and "i < length (pending s)"
    and "snd (pending s ! i) = ForwardGeocode"
    and "firstFeatureCoordinates data = Some (lng, lat)"
  shows "trace (step e s (Settle i (Resolved data))) =
           trace s @ [SetIsGeocoding False, SetIsWithGeocodingError False,
                      EmitSetMapViewport lat lng 14 1000]"
proof -
  from valid_feature_read [OF assms(4)] obtain g where
    "firstFeatureMember ''geometry'' data = Inr g" "truthy g"
    "coordinate g 1 = Inr lat" "coordinate g 0 = Inr lng" by blast
  with assms(1-3) show ?thesis
    by (simp add: settleForward_def forwardThen_def setter_defs)
qed

theorem forward_success_emits_witness:
  "isMounted (step exampleEnv (mount exampleEnv exampleProps) Blur)
   \<and> pending (step exampleEnv (mount exampleEnv exampleProps) Blur) ! 0
       = (''https://api.mapbox.com/geocoding/v5/mapbox.places/123%20Main%20St.json?access_token=pk.test'',
          ForwardGeocode)
   \<and> firstFeatureCoordinates exampleFeature = Some (JNum (- 122), JNum 47)
   \<and> trace (step exampleEnv (step exampleEnv (mount exampleEnv exampleProps) Blur)
              (Settle 0 (Resolved exampleFeature)))
       = trace (step exampleEnv (mount exampleEnv exampleProps) Blur)
           @ [SetIsGeocoding False, SetIsWithGeocodingError False,
              EmitSetMapViewport (JNum 47) (JNum (- 122)) 14 1000]"
proof -
  have m: "isMounted (step exampleEnv (mount exampleEnv exampleProps) Blur)"
    by (simp add: machine_defs setter_defs)
  have p: "pending (step exampleEnv (mount exampleEnv exampleProps) Blur) ! 0
       = (''https://api.mapbox.com/geocoding/v5/mapbox.places/123%20Main%20St.json?access_token=pk.test'',
          ForwardGeocode)"
    by (simp add: machine_defs setter_defs example_defs url_defs)
  have l: "0 < length (pending (step exampleEnv (mount exampleEnv exampleProps) Blur))"
    by (simp add: machine_defs setter_defs)
  have k: "snd (pending (step exampleEnv (mount exampleEnv exampleProps) Blur) ! 0)
             = ForwardGeocode"
    using p by simp
  have f: "firstFeatureCoordinates exampleFeature = Some (JNum (- 122), JNum 47)"
    by (simp add: firstFeatureCoordinates_def exampleFeature_def)
  from forward_success_emits [OF m l k f, of exampleEnv] m p f show ?thesis by simp
qed

subsection \<open>The two triggers\<close>

text \<open>
  Claim C7.  Whenever the search button is rendered, its click handler is the very
  handler of the input's blur event, so in one and the same state a click and a blur
  lead to the same state: that of \<open>doGeocode\<close>, with the same request and the same
  trace.
\<close>

theorem click_is_blur:
  "\<not> isGeocoding s \<Longrightarrow>
     buttonOnClick (render s) = Some (inputOnBlur (render s))
     \<and> step e s Click = step e s Blur
     \<and> step e s Click = doGeocode e s"
  by (simp add: render_def)

theorem click_is_blur_witness:
  "\<not> isGeocoding (mount exampleEnv exampleProps)
   \<and> step exampleEnv (mount exampleEnv exampleProps) Click
       = step exampleEnv (mount exampleEnv exampleProps) Blur
   \<and> fetched (trace (step exampleEnv (mount exampleEnv exampleProps) Click))
       = [''https://api.mapbox.com/geocoding/v5/mapbox.places/123%20Main%20St.json?access_token=pk.test'']"
proof -
  have h: "\<not> isGeocoding (mount exampleEnv exampleProps)"
    by (simp add: machine_defs setter_defs example_defs)
  have "fetched (trace (doGeocode exampleEnv (mount exampleEnv exampleProps)))
       = [''https://api.mapbox.com/geocoding/v5/mapbox.places/123%20Main%20St.json?access_token=pk.test'']"
    by (simp add: machine_defs setter_defs example_defs url_defs fetched_def
        List.map_filter_simps)
  with click_is_blur [OF h, of exampleEnv] h show ?thesis by (simp add: render_def)
qed

subsection \<open>Spinner and button\<close>

text \<open>
  Claim C9.  In every state the spinner is rendered exactly when the loading flag is
  true and the search button exactly when it is false; the two are never rendered
  together.
\<close>

theorem spinner_or_button:
  "spinner (render s) = isGeocoding s
   \<and> (buttonOnClick (render s) \<noteq> None) = (\<not> isGeocoding s)
   \<and> \<not> (spinner (render s) \<and> buttonOnClick (render s) \<noteq> None)"
  by (simp add: render_def)

subsection \<open>The flags at the start of a lookup\<close>

text \<open>
  Claim C10.  \<open>doGeocode\<close> sets the loading flag and clears the error flag before it
  calls \<open>fetch\<close>, so the banner is hidden from the start of a forward lookup.  The reverse
  geocoding effect, when the map is at rest, sets the loading flag and calls \<open>fetch\<close>; it
  does not touch the error flag.
\<close>

theorem flags_at_start:
  "trace (doGeocode e s) =
     trace s @ [SetIsGeocoding True, SetIsWithGeocodingError False,
                Fetch (forwardUrl e (props s))]
   \<and> isGeocoding (doGeocode e s)
   \<and> \<not> isWithGeocodingError (doGeocode e s)
   \<and> bannerOpacity (render (doGeocode e s)) = 0
   \<and> (\<not> isMapDraggingOrZooming (props s) \<longrightarrow>
        trace (reverseGeocodeEffect e s) =
          trace s @ [SetIsGeocoding True, Fetch (reverseUrl e (mapViewport (props s)))]
        \<and> isGeocoding (reverseGeocodeEffect e s)
        \<and> isWithGeocodingError (reverseGeocodeEffect e s) = isWithGeocodingError s)"
  by (simp add: doGeocode_def setter_defs render_def reverseGeocodeEffect_def)

theorem flags_at_start_witness:
  "\<not> isMapDraggingOrZooming (props (initial (exampleProps\<lparr>isMapDraggingOrZooming := False\<rparr>)))
   \<and> trace (reverseGeocodeEffect exampleEnv
              (initial (exampleProps\<lparr>isMapDraggingOrZooming := False\<rparr>)))
       = [SetIsGeocoding True,
          Fetch ''https://api.mapbox.com/geocoding/v5/mapbox.places/-122,47.json?access_token=pk.test'']
   \<and> \<not> isWithGeocodingError
         (reverseGeocodeEffect exampleEnv
            (initial (exampleProps\<lparr>isMapDraggingOrZooming := False\<rparr>)))"
  using flags_at_start [of exampleEnv "initial (exampleProps\<lparr>isMapDraggingOrZooming := False\<rparr>)"]
  by (simp add: initial_def example_defs url_defs)

subsection \<open>Failed and successful lookups\<close>

lemma fetched_append: "fetched (xs @ ys) = fetched xs @ fetched ys"
  by (simp add: fetched_def List.map_filter_def)

lemma fetched_Nil: "fetched [] = []"
  by (simp add: fetched_def List.map_filter_def)

lemma fetched_Cons:
  "fetched (Fetch u # as) = u # fetched as"
  "fetched (SetIsGeocoding b # as) = fetched as"
  "fetched (SetIsWithGeocodingError b # as) = fetched as"
  "fetched (EmitSetMapViewport la lo z d # as) = fetched as"
  "fetched (OnChange nm v # as) = fetched as"
  "fetched (OnKeyDown # as) = fetched as"
  "fetched (ConsoleError msg # as) = fetched as"
  by (simp_all add: fetched_def List.map_filter_def)

lemmas fetched_simps = fetched_append fetched_Nil fetched_Cons

lemma failed_else:
  "isMounted s \<Longrightarrow> failedLookup s (setIsWithGeocodingError True (setIsGeocoding False s))"
  by (simp add: setter_defs fetched_simps)

lemma failed_forwardCatch: "isMounted s \<Longrightarrow> failedLookup s (forwardCatch s)"
  by (simp add: forwardCatch_def setter_defs fetched_simps)

lemma failed_reverseCatch: "isMounted s \<Longrightarrow> failedLookup s (reverseCatch s)"
  by (simp add: reverseCatch_def setter_defs fetched_simps)

lemma failed_forwardCatch_thrown:
  "isMounted s \<Longrightarrow>
   failedLookup s (forwardCatch (setIsWithGeocodingError False (setIsGeocoding False s)))"
  by (simp add: forwardCatch_def setter_defs fetched_simps)

lemma settle_failed:
  assumes "isMounted s" and "\<not> lookupSucceeds k out"
  shows "failedLookup s (settle k out s)"
proof (cases k)
  case ForwardGeocode
  show ?thesis
  proof (cases out)
    case Rejected
    with ForwardGeocode failed_forwardCatch [OF assms(1)] show ?thesis
      by (simp add: settleForward_def)
  next
    case (Resolved data)
    with ForwardGeocode assms failed_forwardCatch [OF assms(1)]
      failed_forwardCatch_thrown [OF assms(1)] failed_else [OF assms(1)]
    show ?thesis
      by (simp add: settleForward_def forwardThen_def readable_def Let_def
          split: sum.splits)
  qed
next
  case (ReverseGeocode nm)
  show ?thesis
  proof (cases out)
    case Rejected
    with ReverseGeocode failed_reverseCatch [OF assms(1)] show ?thesis
      by (simp add: settleReverse_def)
  next
    case (Resolved data)
    with ReverseGeocode assms failed_reverseCatch [OF assms(1)] failed_else [OF assms(1)]
    show ?thesis
      by (simp add: settleReverse_def reverseThen_def split: sum.splits)
  qed
qed

lemma settle_failure:
  assumes "isMounted s" and "\<not> lookupSucceeds k out"
  shows "\<not> isGeocoding (settle k out s)"
    and "isWithGeocodingError (settle k out s)"
    and "props (settle k out s) = props s"
    and "pending (settle k out s) = pending s"
    and "now (settle k out s) = now s"
    and "fetched (trace (settle k out s)) = fetched (trace s)"
    and "\<not> isWithGeocodingError s \<Longrightarrow> timers (settle k out s) = timers s @ [now s + 5000]"
  using settle_failed [OF assms] by simp_all

lemma settle_success:
  assumes "isMounted s" and "lookupSucceeds k out"
  shows "\<not> isGeocoding (settle k out s) \<and> \<not> isWithGeocodingError (settle k out s)"
proof (cases k)
  case ForwardGeocode
  with assms show ?thesis
    by (cases out)
       (auto simp: settleForward_def forwardThen_def readable_def setter_defs
          split: sum.splits)
next
  case (ReverseGeocode nm)
  with assms show ?thesis
    by (cases out)
       (auto simp: settleReverse_def reverseThen_def setter_defs split: sum.splits)
qed

lemma fold_timer_flag:
  "isWithGeocodingError (fold (\<lambda>x. timerCallback) xs s)
     = (if xs = [] then isWithGeocodingError s else False)"
  by (induction xs arbitrary: s) (simp_all add: timerCallback_def setter_defs)

lemma advance_flag:
  "isWithGeocodingError (advance d s)
     = (isWithGeocodingError s \<and> (\<forall>t\<in>set (timers s). \<not> t \<le> now s + d))"
  by (auto simp: advance_def fold_timer_flag Let_def filter_empty_conv)

subsection \<open>The error banner\<close>

lemma flag_doGeocode: "\<not> isWithGeocodingError (doGeocode e s)"
  by (simp add: doGeocode_def setter_defs)

lemma timers_doGeocode: "timers (doGeocode e s) = timers s"
  by (simp add: doGeocode_def setter_defs)

lemma now_doGeocode: "now (doGeocode e s) = now s"
  by (simp add: doGeocode_def setter_defs)

lemma rerender_fields:
  "isWithGeocodingError (rerender e p s)
     = (isWithGeocodingError s \<and> \<not> startsForwardLookup s (Render p))"
  "timers (rerender e p s) = timers s"
  "now (rerender e p s) = now s"
  by (simp_all add: rerender_def reverseGeocodeEffect_def triggerEffect_def flag_doGeocode
      timers_doGeocode now_doGeocode Let_def)
     (simp_all add: setter_defs)

lemma now_settle: "now (settle k out s) = now s"
proof (cases k)
  case ForwardGeocode
  then show ?thesis
    by (cases out)
       (auto simp: settleForward_def forwardThen_def forwardCatch_def setter_defs
          split: sum.splits)
next
  case (ReverseGeocode nm)
  then show ?thesis
    by (cases out)
       (auto simp: settleReverse_def reverseThen_def reverseCatch_def setter_defs
          split: sum.splits)
qed

lemma timers_settle:
  "set (timers s) \<subseteq> set (timers (settle k out s))
   \<and> set (timers (settle k out s)) \<subseteq> insert (now s + 5000) (set (timers s))"
proof (cases k)
  case ForwardGeocode
  then show ?thesis
    by (cases out)
       (auto simp: settleForward_def forwardThen_def forwardCatch_def setter_defs
          split: sum.splits)
next
  case (ReverseGeocode nm)
  then show ?thesis
    by (cases out)
       (auto simp: settleReverse_def reverseThen_def reverseCatch_def setter_defs
          split: sum.splits)
qed

lemma advance_fields:
  "now (advance d s) = now s + d"
  "timers (advance d s) = filter (\<lambda>x. \<not> x \<le> now s + d) (timers s)"
proof -
  have n: "\<And>xs s. now (fold (\<lambda>x. timerCallback) xs s) = now s"
    subgoal for xs s
      by (induction xs arbitrary: s) (simp_all add: timerCallback_def setter_defs)
    done
  have t: "\<And>xs s. timers (fold (\<lambda>x. timerCallback) xs s) = timers s"
    subgoal for xs s
      by (induction xs arbitrary: s) (simp_all add: timerCallback_def setter_defs)
    done
  show "now (advance d s) = now s + d" by (simp add: advance_def Let_def n)
  show "timers (advance d s) = filter (\<lambda>x. \<not> x \<le> now s + d) (timers s)"
    by (simp add: advance_def Let_def t)
qed

lemma now_step: "now (step e s ev) = now s + elapsed [ev]"
  by (cases ev)
     (simp_all add: rerender_fields now_doGeocode now_settle advance_fields render_def
        unmountCleanup_def act_def)

lemma flag_step_hidden:
  assumes "\<not> isWithGeocodingError s"
  shows "isWithGeocodingError (step e s ev) = lookupSettles False s ev"
proof (cases ev)
  case (Settle i out)
  show ?thesis
  proof (cases "i < length (pending s) \<and> isMounted s")
    case True
    let ?s0 = "s\<lparr>pending := take i (pending s) @ drop (Suc i) (pending s)\<rparr>"
    from True have m: "isMounted ?s0" by simp
    show ?thesis
    proof (cases "lookupSucceeds (snd (pending s ! i)) out")
      case ok: True
      from settle_success [OF m ok] True ok Settle show ?thesis by simp
    next
      case ko: False
      from settle_failure(2) [OF m ko] True ko Settle show ?thesis by simp
    qed
  next
    case False
    with assms Settle show ?thesis by (auto simp: settle_unmounted)
  qed
qed (use assms in \<open>simp_all add: rerender_fields flag_doGeocode advance_flag render_def
        unmountCleanup_def act_def\<close>)

lemma flag_step_visible:
  assumes "isWithGeocodingError s"
  shows "(\<not> isWithGeocodingError (step e s ev))
           = (lookupSettles True s ev \<or> startsForwardLookup s ev \<or> timerComesDue s ev)"
proof (cases ev)
  case (Settle i out)
  show ?thesis
  proof (cases "i < length (pending s) \<and> isMounted s")
    case True
    let ?s0 = "s\<lparr>pending := take i (pending s) @ drop (Suc i) (pending s)\<rparr>"
    from True have m: "isMounted ?s0" by simp
    show ?thesis
    proof (cases "lookupSucceeds (snd (pending s ! i)) out")
      case ok: True
      from settle_success [OF m ok] True ok Settle show ?thesis by simp
    next
      case ko: False
      from settle_failure(2) [OF m ko] True ko Settle show ?thesis by simp
    qed
  next
    case False
    with assms Settle show ?thesis by (auto simp: settle_unmounted)
  qed
qed (use assms in \<open>auto simp: rerender_fields flag_doGeocode advance_flag render_def
        unmountCleanup_def act_def\<close>)

lemma timers_step:
  "set (timers (step e s ev)) \<subseteq> insert (now s + 5000) (set (timers s))"
proof (cases ev)
  case (Settle i out)
  let ?s0 = "s\<lparr>pending := take i (pending s) @ drop (Suc i) (pending s)\<rparr>"
  from timers_settle [of ?s0 "snd (pending s ! i)" out] Settle show ?thesis by auto
qed (auto simp: rerender_fields timers_doGeocode advance_fields render_def
        unmountCleanup_def act_def)

lemma timers_step_kept:
  assumes "\<not> timerComesDue s ev"
  shows "set (timers s) \<subseteq> set (timers (step e s ev))"
proof (cases ev)
  case (Settle i out)
  let ?s0 = "s\<lparr>pending := take i (pending s) @ drop (Suc i) (pending s)\<rparr>"
  from timers_settle [of ?s0 "snd (pending s ! i)" out] Settle show ?thesis by auto
next
  case (Advance d)
  with assms show ?thesis by (auto simp: advance_fields)
qed (auto simp: rerender_fields timers_doGeocode render_def unmountCleanup_def act_def)

lemma quiet_run_visible:
  assumes "isWithGeocodingError s"
    and "\<forall>t\<in>set (timers s). T \<le> t"
    and "quietRun e s evs"
    and "now s + elapsed evs < T"
    and "T \<le> now s + 5000"
  shows "isWithGeocodingError (run e s evs)
         \<and> set (timers s) \<subseteq> set (timers (run e s evs))
         \<and> now (run e s evs) = now s + elapsed evs"
  using assms
proof (induction evs arbitrary: s)
  case Nil
  then show ?case by (simp add: run_def)
next
  case (Cons ev evs)
  let ?s1 = "step e s ev"
  have el: "elapsed (ev # evs) = elapsed [ev] + elapsed evs" by (cases ev) simp_all
  have n1: "now ?s1 = now s + elapsed [ev]" by (rule now_step)
  from Cons.prems(4) el have lt: "now s + elapsed [ev] < T" by simp
  have nd: "\<not> timerComesDue s ev"
  proof (cases ev)
    case (Advance d)
    with Cons.prems(2) lt show ?thesis by auto
  qed simp_all
  from Cons.prems(3) have q: "\<not> startsForwardLookup s ev" "\<not> lookupSettles True s ev"
    "quietRun e ?s1 evs" by simp_all
  from flag_step_visible [OF Cons.prems(1), of e ev] q nd
  have f1: "isWithGeocodingError ?s1" by simp
  have t1: "\<forall>t\<in>set (timers ?s1). T \<le> t"
  proof
    fix t assume "t \<in> set (timers ?s1)"
    with timers_step [of e s ev] have "t = now s + 5000 \<or> t \<in> set (timers s)" by auto
    with Cons.prems(2,5) show "T \<le> t" by auto
  qed
  from Cons.prems(4) el n1 have b1: "now ?s1 + elapsed evs < T" by simp
  from Cons.prems(5) n1 have b2: "T \<le> now ?s1 + 5000" by simp
  from Cons.IH [OF f1 t1 q(3) b1 b2] timers_step_kept [OF nd, of e] n1 el
  show ?case by (auto simp: run_def)
qed

text \<open>
  Claim C4, as amended.  The error flag goes from hidden to visible exactly when a
  pending request of the mounted component settles with a failed lookup (a rejection, or
  a body without a usable first feature), and a timer of 5000 ms is started then.  It
  goes from visible to hidden exactly when a lookup of the mounted component succeeds,
  when a forward lookup starts, or when a timer comes due.  So, if no timer is pending
  that comes due earlier, the flag shown by a failed lookup stays visible through every
  run of less than 5000 ms in which no forward lookup starts and no lookup succeeds, and
  it is hidden the moment 5000 ms have passed.
\<close>

theorem error_banner_timing:
  "(\<not> isWithGeocodingError s \<longrightarrow>
      isWithGeocodingError (step e s ev) = lookupSettles False s ev
      \<and> (lookupSettles False s ev \<longrightarrow> timers (step e s ev) = timers s @ [now s + 5000]))
   \<and> (isWithGeocodingError s \<longrightarrow>
        (\<not> isWithGeocodingError (step e s ev))
          = (lookupSettles True s ev \<or> startsForwardLookup s ev \<or> timerComesDue s ev))
   \<and> (\<not> isWithGeocodingError s \<and> lookupSettles False s ev
        \<and> (\<forall>t\<in>set (timers s). now s + 5000 \<le> t)
        \<and> quietRun e (step e s ev) evs \<and> elapsed evs < 5000 \<longrightarrow>
          isWithGeocodingError (run e s (ev # evs))
          \<and> (5000 \<le> elapsed evs + d \<longrightarrow>
               \<not> isWithGeocodingError (run e s (ev # evs @ [Advance d]))))"
proof (intro conjI impI)
  assume "\<not> isWithGeocodingError s"
  then show "isWithGeocodingError (step e s ev) = lookupSettles False s ev"
    by (rule flag_step_hidden)
next
  assume h: "\<not> isWithGeocodingError s" and f: "lookupSettles False s ev"
  from f obtain i out where ev: "ev = Settle i out" by (cases ev) simp_all
  let ?s0 = "s\<lparr>pending := take i (pending s) @ drop (Suc i) (pending s)\<rparr>"
  from f ev have m: "isMounted ?s0" and ko: "\<not> lookupSucceeds (snd (pending s ! i)) out"
    and i: "i < length (pending s)" by simp_all
  from h have h0: "\<not> isWithGeocodingError ?s0" by simp
  from settle_failure(7) [OF m ko h0] ev i
  show "timers (step e s ev) = timers s @ [now s + 5000]" by simp
next
  assume "isWithGeocodingError s"
  then show "(\<not> isWithGeocodingError (step e s ev))
          = (lookupSettles True s ev \<or> startsForwardLookup s ev \<or> timerComesDue s ev)"
    by (rule flag_step_visible)
next
  assume a: "\<not> isWithGeocodingError s \<and> lookupSettles False s ev
        \<and> (\<forall>t\<in>set (timers s). now s + 5000 \<le> t)
        \<and> quietRun e (step e s ev) evs \<and> elapsed evs < 5000"
  let ?s1 = "step e s ev"
  let ?T = "now s + 5000"
  from a obtain i out where ev: "ev = Settle i out" by (cases ev) simp_all
  let ?s0 = "s\<lparr>pending := take i (pending s) @ drop (Suc i) (pending s)\<rparr>"
  from a ev have m: "isMounted ?s0" and ko: "\<not> lookupSucceeds (snd (pending s ! i)) out"
    and i: "i < length (pending s)" by simp_all
  from a have h0: "\<not> isWithGeocodingError ?s0" by simp
  from settle_failure(7) [OF m ko h0] ev i
  have t1: "timers ?s1 = timers s @ [?T]" by simp
  from flag_step_hidden [of s e ev] a have f1: "isWithGeocodingError ?s1" by simp
  from now_step [of e s ev] ev have n1: "now ?s1 = now s" by simp
  from t1 a have all: "\<forall>t\<in>set (timers ?s1). ?T \<le> t" by auto
  from a n1 have b1: "now ?s1 + elapsed evs < ?T" and b2: "?T \<le> now ?s1 + 5000" by simp_all
  from a have q: "quietRun e ?s1 evs" by simp
  note r = quiet_run_visible [OF f1 all q b1 b2]
  have run1: "run e s (ev # evs) = run e ?s1 evs" by (simp add: run_def)
  from r show "isWithGeocodingError (run e s (ev # evs))" by (simp add: run1)
  have run2: "\<And>d. run e s (ev # evs @ [Advance d]) = advance d (run e ?s1 evs)"
    by (simp add: run_def)
  {
    assume d: "5000 \<le> elapsed evs + d"
    from r t1 have "?T \<in> set (timers (run e ?s1 evs))" by auto
    moreover from r n1 d have "?T \<le> now (run e ?s1 evs) + d" by simp
    ultimately
    show "\<not> isWithGeocodingError (run e s (ev # evs @ [Advance d]))"
      by (auto simp: run2 advance_flag)
  }
qed

theorem error_banner_timing_witness:
  "\<not> isWithGeocodingError (step exampleEnv (mount exampleEnv exampleProps) Blur)
   \<and> lookupSettles False (step exampleEnv (mount exampleEnv exampleProps) Blur)
         (Settle 0 (Resolved exampleEmpty))
   \<and> timers (step exampleEnv (mount exampleEnv exampleProps) Blur) = []
   \<and> isWithGeocodingError
        (run exampleEnv (step exampleEnv (mount exampleEnv exampleProps) Blur)
           [Settle 0 (Resolved exampleEmpty), Advance 2000, Change ''x'', Advance 2999])
   \<and> \<not> isWithGeocodingError
        (run exampleEnv (step exampleEnv (mount exampleEnv exampleProps) Blur)
           [Settle 0 (Resolved exampleEmpty), Advance 2000, Change ''x'', Advance 2999,
            Advance 1])"
proof -
  let ?s = "step exampleEnv (mount exampleEnv exampleProps) Blur"
  let ?ev = "Settle 0 (Resolved exampleEmpty)"
  let ?evs = "[Advance 2000, Change ''x'', Advance 2999]"
  have h: "\<not> isWithGeocodingError ?s"
    by (simp add: machine_defs setter_defs example_defs)
  have t: "timers ?s = []"
    by (simp add: machine_defs setter_defs example_defs)
  have f: "lookupSettles False ?s ?ev"
    by (simp add: machine_defs setter_defs example_defs firstFeatureMember_def)
  have q: "quietRun exampleEnv (step exampleEnv ?s ?ev) ?evs"
    by (simp del: step.simps)
  have el: "elapsed ?evs < 5000" "5000 \<le> elapsed ?evs + 1" by simp_all
  from error_banner_timing [of ?s exampleEnv ?ev ?evs 1] h t f q el
  have "isWithGeocodingError (run exampleEnv ?s (?ev # ?evs))"
    and "\<not> isWithGeocodingError (run exampleEnv ?s (?ev # ?evs @ [Advance 1]))"
    by simp_all
  with h t f show ?thesis by simp
qed

text \<open>
  The claim as stated fails in three ways.  A first lookup fails at time 0, shows the
  banner and starts a timer due at 5000.  A second lookup starts at 3000: its start hides
  the banner, after 3000 ms and with no successful lookup.  The second lookup finds
  nothing at 4000, which shows the banner again; the first timer, never cancelled, hides
  that banner at 5000, after 1000 ms.  And after the unmount a lookup that finds nothing
  does not show the banner.
\<close>

theorem error_banner_timing_counterexample:
  "isWithGeocodingError
       (run exampleEnv (mount exampleEnv exampleProps) [Blur, Settle 0 Rejected, Advance 3000])
   \<and> \<not> isWithGeocodingError
       (run exampleEnv (mount exampleEnv exampleProps)
          [Blur, Settle 0 Rejected, Advance 3000, Blur])
   \<and> now (run exampleEnv (mount exampleEnv exampleProps)
          [Blur, Settle 0 Rejected, Advance 3000, Blur]) = 3000
   \<and> \<not> isWithGeocodingError
       (run exampleEnv (mount exampleEnv exampleProps)
          [Blur, Settle 0 Rejected, Advance 3000, Blur, Advance 1000])
   \<and> now (run exampleEnv (mount exampleEnv exampleProps)
          [Blur, Settle 0 Rejected, Advance 3000, Blur, Advance 1000]) = 4000
   \<and> isWithGeocodingError
       (run exampleEnv (mount exampleEnv exampleProps)
          [Blur, Settle 0 Rejected, Advance 3000, Blur, Advance 1000,
           Settle 0 (Resolved exampleEmpty)])
   \<and> \<not> isWithGeocodingError
       (run exampleEnv (mount exampleEnv exampleProps)
          [Blur, Settle 0 Rejected, Advance 3000, Blur, Advance 1000,
           Settle 0 (Resolved exampleEmpty), Advance 1000])
   \<and> now (run exampleEnv (mount exampleEnv exampleProps)
          [Blur, Settle 0 Rejected, Advance 3000, Blur, Advance 1000,
           Settle 0 (Resolved exampleEmpty), Advance 1000]) = 5000
   \<and> \<not> isWithGeocodingError
       (run exampleEnv (mount exampleEnv exampleProps)
          [Blur, Unmount, Settle 0 (Resolved exampleEmpty)])"
proof -
  define u where "u = forwardUrl exampleEnv exampleProps"
  define s1 where "s1 = step exampleEnv (mount exampleEnv exampleProps) Blur"
  define s2 where "s2 = step exampleEnv s1 (Settle 0 Rejected)"
  define s3 where "s3 = step exampleEnv s2 (Advance 3000)"
  define s4 where "s4 = step exampleEnv s3 Blur"
  define s5 where "s5 = step exampleEnv s4 (Advance 1000)"
  define s6 where "s6 = step exampleEnv s5 (Settle 0 (Resolved exampleEmpty))"
  define s7 where "s7 = step exampleEnv s6 (Advance 1000)"
  have f1: "isMounted s1" "\<not> isWithGeocodingError s1" "timers s1 = []" "now s1 = 0"
    "pending s1 = [(u, ForwardGeocode)]" "props s1 = exampleProps"
    unfolding s1_def u_def by (simp_all add: machine_defs setter_defs example_defs)
  have f2: "isMounted s2" "isWithGeocodingError s2" "timers s2 = [5000]" "now s2 = 0"
    "pending s2 = []" "props s2 = exampleProps"
    unfolding s2_def using f1 by (simp_all add: settle_defs setter_defs)
  have f3: "isMounted s3" "isWithGeocodingError s3" "timers s3 = [5000]" "now s3 = 3000"
    "pending s3 = []" "props s3 = exampleProps"
    unfolding s3_def using f2 by (simp_all add: advance_def)
  have f4: "isMounted s4" "\<not> isWithGeocodingError s4" "timers s4 = [5000]" "now s4 = 3000"
    "pending s4 = [(u, ForwardGeocode)]" "props s4 = exampleProps"
    unfolding s4_def u_def using f3 by (simp_all add: render_def doGeocode_def setter_defs)
  have f5: "isMounted s5" "\<not> isWithGeocodingError s5" "timers s5 = [5000]" "now s5 = 4000"
    "pending s5 = [(u, ForwardGeocode)]" "props s5 = exampleProps"
    unfolding s5_def using f4 by (simp_all add: advance_def)
  have f6: "isMounted s6" "isWithGeocodingError s6" "timers s6 = [5000, 9000]" "now s6 = 4000"
    "pending s6 = []" "props s6 = exampleProps"
    unfolding s6_def using f5
    by (simp_all add: settle_defs setter_defs firstFeatureMember_def exampleEmpty_def)
  have f7: "\<not> isWithGeocodingError s7" "now s7 = 5000"
    unfolding s7_def using f6 by (simp_all add: advance_def timerCallback_def setter_defs)
  have r3: "run exampleEnv (mount exampleEnv exampleProps)
          [Blur, Settle 0 Rejected, Advance 3000] = s3"
    unfolding run_def s3_def s2_def s1_def by (simp only: foldl.simps)
  have r4: "run exampleEnv (mount exampleEnv exampleProps)
          [Blur, Settle 0 Rejected, Advance 3000, Blur] = s4"
    unfolding run_def s4_def s3_def s2_def s1_def by (simp only: foldl.simps)
  have r5: "run exampleEnv (mount exampleEnv exampleProps)
          [Blur, Settle 0 Rejected, Advance 3000, Blur, Advance 1000] = s5"
    unfolding run_def s5_def s4_def s3_def s2_def s1_def by (simp only: foldl.simps)
  have r6: "run exampleEnv (mount exampleEnv exampleProps)
          [Blur, Settle 0 Rejected, Advance 3000, Blur, Advance 1000,
           Settle 0 (Resolved exampleEmpty)] = s6"
    unfolding run_def s6_def s5_def s4_def s3_def s2_def s1_def by (simp only: foldl.simps)
  have r7: "run exampleEnv (mount exampleEnv exampleProps)
          [Blur, Settle 0 Rejected, Advance 3000, Blur, Advance 1000,
           Settle 0 (Resolved exampleEmpty), Advance 1000] = s7"
    unfolding run_def s7_def s6_def s5_def s4_def s3_def s2_def s1_def
    by (simp only: foldl.simps)
  have un: "\<not> isWithGeocodingError
       (run exampleEnv (mount exampleEnv exampleProps)
          [Blur, Unmount, Settle 0 (Resolved exampleEmpty)])"
    by (simp add: machine_defs setter_defs settle_defs firstFeatureMember_def
        example_defs)
  show ?thesis unfolding r3 r4 r5 r6 r7 using f3 f4 f5 f6 f7 un by simp
qed

text \<open>
  Claim C5.  The callback of the dismissal timer calls the error setter with false
  whatever the mount flag says: whenever a timer has come due, the error flag is false
  afterwards, mounted or not.  The continuations of the requests, for their part, leave
  both flags alone once the component has unmounted.
\<close>

theorem timer_ignores_mount_guard:
  "trace (timerCallback s) = trace s @ [SetIsWithGeocodingError False]
   \<and> \<not> isWithGeocodingError (timerCallback s)
   \<and> (t \<in> set (timers s) \<and> t \<le> now s + d \<longrightarrow>
        \<not> isWithGeocodingError (step e s (Advance d)))
   \<and> (\<not> isMounted s \<longrightarrow>
        isGeocoding (settle k out s) = isGeocoding s
        \<and> isWithGeocodingError (settle k out s) = isWithGeocodingError s)"
  by (auto simp: advance_flag settle_unmounted timerCallback_def setter_defs)

theorem timer_ignores_mount_guard_witness:
  "\<not> isMounted
       (run exampleEnv (mount exampleEnv exampleProps) [Blur, Settle 0 Rejected, Unmount])
   \<and> isWithGeocodingError
       (run exampleEnv (mount exampleEnv exampleProps) [Blur, Settle 0 Rejected, Unmount])
   \<and> timers (run exampleEnv (mount exampleEnv exampleProps) [Blur, Settle 0 Rejected, Unmount])
       = [5000]
   \<and> \<not> isWithGeocodingError
       (step exampleEnv
          (run exampleEnv (mount exampleEnv exampleProps) [Blur, Settle 0 Rejected, Unmount])
          (Advance 5000))"
proof -
  let ?s = "run exampleEnv (mount exampleEnv exampleProps) [Blur, Settle 0 Rejected, Unmount]"
  have u: "\<not> isMounted ?s"
    and v: "isWithGeocodingError ?s"
    and t: "timers ?s = [5000]"
    and n: "now ?s = 0"
    by (simp_all add: machine_defs setter_defs settle_defs)
  from timer_ignores_mount_guard [of ?s 5000 5000 exampleEnv ForwardGeocode Rejected] t n
  have "\<not> isWithGeocodingError (step exampleEnv ?s (Advance 5000))" by simp
  with u v t show ?thesis by blast
qed

subsection \<open>Failures look alike\<close>

text \<open>
  Claim C6, as amended.  While the component is mounted, every failed lookup, be it a
  rejection (network or parse failure) or a body without a usable feature, of a forward
  or of a reverse request, ends in the same rendered state: no spinner, the search
  button, the banner shown, and the input as it was.  No request is issued in the
  continuation, and a change of the input is still passed on to the parent.
\<close>

theorem failures_collapse:
  assumes "isMounted s" and "i < length (pending s)"
    and "\<not> lookupSucceeds (snd (pending s ! i)) out"
  shows "render (step e s (Settle i out))
           = (render s)\<lparr>spinner := False, buttonOnClick := Some CallDoGeocode,
                         bannerOpacity := 1\<rparr>
     \<and> \<not> isGeocoding (step e s (Settle i out))
     \<and> isWithGeocodingError (step e s (Settle i out))
     \<and> fetched (trace (step e s (Settle i out))) = fetched (trace s)
     \<and> length (pending (step e s (Settle i out))) < length (pending s)
     \<and> trace (step e (step e s (Settle i out)) (Change text))
         = trace (step e s (Settle i out)) @ [OnChange (name (props s)) (JStr text)]"
proof -
  let ?k = "snd (pending s ! i)"
  let ?s0 = "s\<lparr>pending := take i (pending s) @ drop (Suc i) (pending s)\<rparr>"
  have st: "step e s (Settle i out) = settle ?k out ?s0"
    using assms(2) by simp
  have m: "isMounted ?s0" using assms(1) by simp
  note f = settle_failure [OF m assms(3)]
  have "length (pending ?s0) < length (pending s)"
    using assms(2) by simp
  with f(1-4,6) show ?thesis
    unfolding st by (simp add: render_def act_def)
qed

theorem failures_collapse_witness:
  "isMounted (step exampleEnv (mount exampleEnv exampleProps) Blur)
   \<and> \<not> lookupSucceeds ForwardGeocode Rejected
   \<and> \<not> lookupSucceeds ForwardGeocode (Resolved exampleEmpty)
   \<and> render (step exampleEnv (step exampleEnv (mount exampleEnv exampleProps) Blur)
               (Settle 0 Rejected))
       = render (step exampleEnv (step exampleEnv (mount exampleEnv exampleProps) Blur)
               (Settle 0 (Resolved exampleEmpty)))
   \<and> bannerOpacity
        (render (step exampleEnv (step exampleEnv (mount exampleEnv exampleProps) Blur)
                   (Settle 0 Rejected))) = 1"
proof -
  let ?s = "step exampleEnv (mount exampleEnv exampleProps) Blur"
  have m: "isMounted ?s" by (simp add: machine_defs setter_defs example_defs)
  have l: "0 < length (pending ?s)" by (simp add: machine_defs setter_defs example_defs)
  have k: "snd (pending ?s ! 0) = ForwardGeocode" by (simp add: machine_defs setter_defs example_defs)
  have f1: "\<not> lookupSucceeds (snd (pending ?s ! 0)) Rejected"
    unfolding k by simp
  have f2: "\<not> lookupSucceeds (snd (pending ?s ! 0)) (Resolved exampleEmpty)"
    unfolding k by (simp add: firstFeatureMember_def exampleEmpty_def)
  from failures_collapse [OF m l f1, of exampleEnv] failures_collapse [OF m l f2, of exampleEnv]
  have "render (step exampleEnv ?s (Settle 0 Rejected))
          = render (step exampleEnv ?s (Settle 0 (Resolved exampleEmpty)))"
    and "bannerOpacity (render (step exampleEnv ?s (Settle 0 Rejected))) = 1"
    by simp_all
  with m f1 f2 show ?thesis unfolding k by blast
qed

text \<open>
  The claim as stated fails after the unmount: the rejection of a pending forward
  request then leaves the loading flag set and the error flag cleared.
\<close>

theorem failures_collapse_counterexample:
  "\<not> lookupSucceeds ForwardGeocode Rejected
   \<and> pending (run exampleEnv (mount exampleEnv exampleProps) [Blur, Unmount])
       = [(''https://api.mapbox.com/geocoding/v5/mapbox.places/123%20Main%20St.json?access_token=pk.test'',
           ForwardGeocode)]
   \<and> isGeocoding
        (run exampleEnv (mount exampleEnv exampleProps) [Blur, Unmount, Settle 0 Rejected])
   \<and> \<not> isWithGeocodingError
        (run exampleEnv (mount exampleEnv exampleProps) [Blur, Unmount, Settle 0 Rejected])"
  by (simp add: machine_defs setter_defs settle_defs example_defs url_defs)

subsection \<open>Requests\<close>

lemma fetched_settle: "fetched (trace (settle k out s)) = fetched (trace s)"
proof (cases k)
  case ForwardGeocode
  then show ?thesis
    by (cases out)
       (auto simp: settleForward_def forwardThen_def forwardCatch_def setter_defs
          fetched_simps split: sum.splits)
next
  case (ReverseGeocode nm)
  then show ?thesis
    by (cases out)
       (auto simp: settleReverse_def reverseThen_def reverseCatch_def setter_defs
          fetched_simps split: sum.splits)
qed

lemma fetched_fold_timer:
  "fetched (trace (fold (\<lambda>x. timerCallback) xs s)) = fetched (trace s)"
  by (induction xs arbitrary: s) (simp_all add: timerCallback_def setter_defs fetched_simps)

lemma hexDigit_range: "hexDigit n \<in> set hexDigits"
proof -
  have "n mod 16 < length hexDigits" by (simp add: hexDigits_def)
  then show ?thesis unfolding hexDigit_def by (rule nth_mem)
qed

lemma percentEscape_chars:
  assumes "x \<in> set (percentEscape b)"
  shows "x = CHR ''%'' \<or> x \<in> set hexDigits"
  using assms hexDigit_range [of b] hexDigit_range [of "b div 16"]
  by (auto simp: percentEscape_def)

lemma encodeChar_chars:
  assumes "x \<in> set (encodeChar c)"
  shows "unreserved x \<or> x = CHR ''%'' \<or> x \<in> set hexDigits"
proof (cases "unreserved c")
  case True
  with assms show ?thesis by (simp add: encodeChar_def)
next
  case False
  with assms have "x \<in> set (percentEscape (of_char c))
      \<or> x \<in> set (percentEscape (192 + of_char c div 64))
      \<or> x \<in> set (percentEscape (128 + of_char c mod 64))"
    by (simp add: encodeChar_def Let_def split: if_splits)
  then show ?thesis using percentEscape_chars by blast
qed

lemma encodeURIComponent_chars:
  assumes "x \<in> set (encodeURIComponent q)"
  shows "unreserved x \<or> x = CHR ''%'' \<or> x \<in> set hexDigits"
proof -
  from assms obtain c where "x \<in> set (encodeChar c)"
    by (auto simp: encodeURIComponent_def)
  then show ?thesis by (rule encodeChar_chars)
qed

lemma reserved_not_encoded:
  assumes "x \<in> set ''/?&#= ''"
  shows "\<not> (unreserved x \<or> x = CHR ''%'' \<or> x \<in> set hexDigits)"
  using assms by (auto simp: unreserved_def hexDigits_def)

subsection \<open>Percent-encoding\<close>

lemma sixteen_cases:
  assumes "k < (16::nat)"
  shows "k = 0 \<or> k = 1 \<or> k = 2 \<or> k = 3 \<or> k = 4 \<or> k = 5 \<or> k = 6 \<or> k = 7
         \<or> k = 8 \<or> k = 9 \<or> k = 10 \<or> k = 11 \<or> k = 12 \<or> k = 13 \<or> k = 14 \<or> k = 15"
  using assms by arith

lemma hexValue_hexDigits:
  assumes "k < 16"
  shows "hexValue (hexDigits ! k) = Some k"
  using sixteen_cases [OF assms]
  by (elim disjE) (simp_all add: hexDigits_def hexValue_def)

lemma hexValue_hexDigit: "hexValue (hexDigit n) = Some (n mod 16)"
  unfolding hexDigit_def by (rule hexValue_hexDigits) simp

lemma percentDecode_escape:
  assumes "b < 256"
  shows "percentDecode (percentEscape b @ r) = map_option (\<lambda>bs. b # bs) (percentDecode r)"
proof -
  from assms have "(b div 16) mod 16 = b div 16" by simp
  moreover have "16 * (b div 16) + b mod 16 = b" by simp
  ultimately show ?thesis
    by (simp add: percentEscape_def hexValue_hexDigit)
qed

lemma percentDecode_escapes:
  assumes "\<forall>b\<in>set bs. b < 256"
  shows "percentDecode (escapeOctets bs @ r) = map_option (\<lambda>cs. bs @ cs) (percentDecode r)"
  using assms
proof (induction bs)
  case Nil
  then show ?case by (simp add: escapeOctets_def option.map_ident)
next
  case (Cons b bs)
  then have "percentDecode (escapeOctets (b # bs) @ r)
      = map_option (\<lambda>cs. b # cs) (percentDecode (escapeOctets bs @ r))"
    using percentDecode_escape [of b "escapeOctets bs @ r"] by (simp add: escapeOctets_def)
  with Cons show ?case by (simp add: option.map_comp comp_def)
qed

lemma split3: "(cp div 4096) * 4096 + (cp div 64 mod 64) * 64 + cp mod 64 = (cp::nat)"
proof -
  define q a b c where "q = cp div 64" and "a = q div 64" and "b = q mod 64" and "c = cp mod 64"
  have "cp div 4096 = a" unfolding a_def q_def by (simp add: div_mult2_eq [symmetric])
  moreover have "q = a * 64 + b" unfolding a_def b_def by simp
  moreover have "cp = q * 64 + c" unfolding q_def c_def by simp
  ultimately show ?thesis unfolding q_def [symmetric] b_def [symmetric] c_def [symmetric]
    by linarith
qed

lemma split4: "(cp div 262144) * 262144 + (cp div 4096 mod 64) * 4096
                 + (cp div 64 mod 64) * 64 + cp mod 64 = (cp::nat)"
proof -
  define q a b where "q = cp div 4096" and "a = q div 64" and "b = q mod 64"
  define r where "r = (cp div 64 mod 64) * 64 + cp mod 64"
  have "cp div 262144 = a" unfolding a_def q_def by (simp add: div_mult2_eq [symmetric])
  moreover have "q = a * 64 + b" unfolding a_def b_def by simp
  moreover have "q * 4096 + r = cp" unfolding q_def r_def using split3 [of cp] by simp
  ultimately show ?thesis
    unfolding q_def [symmetric] b_def [symmetric] r_def [symmetric] add.assoc
    by linarith
qed

lemma div_bound3: "cp < 0x10000 \<Longrightarrow> cp div 4096 < (16::nat)" by (simp add: less_mult_imp_div_less)
lemma div_bound4: "cp < 0x110000 \<Longrightarrow> cp div 262144 < (5::nat)" by (simp add: less_mult_imp_div_less)
lemma div_bound2: "cp < 0x800 \<Longrightarrow> cp div 64 < (32::nat)" by (simp add: less_mult_imp_div_less)
lemma div_low2: "0x80 \<le> cp \<Longrightarrow> 2 \<le> cp div (64::nat)" by (simp add: le_div_geq) 
lemma div_low3: "0x800 \<le> cp \<Longrightarrow> 32 \<le> cp div (64::nat)" by arith
lemma div_low4: "0x10000 \<le> cp \<Longrightarrow> 16 \<le> cp div (4096::nat)" by arith

lemma utf8Octets_bytes:
  assumes "cp < 0x110000"
  shows "\<forall>b\<in>set (utf8Octets cp). b < 256"
proof -
  from assms have "cp div 262144 < 5" by (rule div_bound4)
  moreover have "cp < 0x10000 \<Longrightarrow> cp div 4096 < 16" by (rule div_bound3)
  moreover have "cp < 0x800 \<Longrightarrow> cp div 64 < 32" by (rule div_bound2)
  moreover have "cp mod 64 < 64" "cp div 64 mod 64 < 64" "cp div 4096 mod 64 < 64" by simp_all
  ultimately show ?thesis by (auto simp: utf8Octets_def)
qed

lemma utf8Decode_1:
  assumes "cp < 0x80"
  shows "utf8Decode (utf8Octets cp @ r) = map_option (\<lambda>cps. cp # cps) (utf8Decode r)"
  using assms by (simp add: utf8Octets_def)

lemma utf8Decode_2:
  assumes "0x80 \<le> cp" "cp < 0x800"
  shows "utf8Decode (utf8Octets cp @ r) = map_option (\<lambda>cps. cp # cps) (utf8Decode r)"
proof -
  define a b where "a = cp div 64" and "b = cp mod 64"
  have ab: "a * 64 + b = cp" "b < 64" unfolding a_def b_def by simp_all
  from assms have a: "2 \<le> a" "a < 32" unfolding a_def by (simp_all add: div_low2 div_bound2)
  from assms have o: "utf8Octets cp = [0xC0 + a, 0x80 + b]"
    by (simp add: utf8Octets_def a_def b_def)
  from a ab show ?thesis unfolding o by (simp add: isContinuation_def)
qed


lemma utf8Decode_3:
  assumes "0x800 \<le> cp" "cp < 0x10000" "\<not> (0xD800 \<le> cp \<and> cp \<le> 0xDFFF)"
  shows "utf8Decode (utf8Octets cp @ r) = map_option (\<lambda>cps. cp # cps) (utf8Decode r)"
proof -
  define a b c where "a = cp div 4096" and "b = cp div 64 mod 64" and "c = cp mod 64"
  have abc: "a * 4096 + b * 64 + c = cp" "b < 64" "c < 64"
    unfolding a_def b_def c_def using split3 [of cp] by simp_all
  from assms have a: "a < 16" unfolding a_def by (simp add: div_bound3)
  from assms have o: "utf8Octets cp = [0xE0 + a, 0x80 + b, 0x80 + c]"
    by (simp add: utf8Octets_def a_def b_def c_def)
  from a abc assms show ?thesis unfolding o by (simp add: isContinuation_def Let_def)
qed

lemma utf8Decode_4:
  assumes "0x10000 \<le> cp" "cp < 0x110000"
  shows "utf8Decode (utf8Octets cp @ r) = map_option (\<lambda>cps. cp # cps) (utf8Decode r)"
proof -
  define a b c d where "a = cp div 262144" and "b = cp div 4096 mod 64"
    and "c = cp div 64 mod 64" and "d = cp mod 64"
  have abcd: "a * 262144 + b * 4096 + c * 64 + d = cp" "b < 64" "c < 64" "d < 64"
    unfolding a_def b_def c_def d_def using split4 [of cp] by simp_all
  from assms have a: "a < 5" unfolding a_def by (simp add: div_bound4)
  from assms have o: "utf8Octets cp = [0xF0 + a, 0x80 + b, 0x80 + c, 0x80 + d]"
    by (simp add: utf8Octets_def a_def b_def c_def d_def)
  from a abcd assms show ?thesis unfolding o by (simp add: isContinuation_def Let_def)
qed

lemma utf8Decode_octets:
  assumes "scalarValue cp"
  shows "utf8Decode (utf8Octets cp @ r) = map_option (\<lambda>cps. cp # cps) (utf8Decode r)"
proof -
  consider "cp < 0x80" | "0x80 \<le> cp" "cp < 0x800" | "0x800 \<le> cp" "cp < 0x10000"
    | "0x10000 \<le> cp" by linarith
  then show ?thesis
  proof cases
    case 1 then show ?thesis by (rule utf8Decode_1)
  next
    case 2 then show ?thesis by (rule utf8Decode_2)
  next
    case 3 with assms show ?thesis by (intro utf8Decode_3) (simp_all add: scalarValue_def)
  next
    case 4 with assms show ?thesis by (intro utf8Decode_4) (simp_all add: scalarValue_def)
  qed
qed


lemma unreserved_ascii:
  assumes "unreserved c"
  shows "c \<noteq> CHR ''%''" and "(of_char c :: nat) < 0x80"
  using assms by (auto simp: unreserved_def)

lemma encodeUnits_factor:
  "encodeUnits us = map_option (\<lambda>cps. concat (map encodePoint cps)) (codePoints us)"
proof (induction us rule: encodeUnits.induct)
  case 1
  show ?case by simp
next
  case (2 u us)
  show ?case
  proof (cases "u < 0x80 \<and> unreserved (char_of u)")
    case True
    then have "\<not> isTrailSurrogate u" "\<not> isLeadSurrogate u"
      by (simp_all add: isTrailSurrogate_def isLeadSurrogate_def)
    with True 2(1) show ?thesis
      by (simp add: encodePoint_def option.map_comp comp_def)
  next
    case False
    show ?thesis
    proof (cases "isTrailSurrogate u")
      case True
      with False show ?thesis by auto
    next
      case nt: False
      show ?thesis
      proof (cases "isLeadSurrogate u")
        case nl: False
        with False nt 2(2) show ?thesis
          by (auto simp: encodePoint_def option.map_comp comp_def)
      next
        case l: True
        show ?thesis
        proof (cases us)
          case Nil
          with False nt l show ?thesis by auto
        next
          case (Cons t ts)
          show ?thesis
          proof (cases "isTrailSurrogate t")
            case tt: True
            have big: "\<not> surrogatePair u t < 0x80" by (simp add: surrogatePair_def)
            from False nt l Cons tt 2(3) [OF False nt _ Cons tt] big show ?thesis
              by (auto simp: encodePoint_def option.map_comp comp_def)
          next
            case ft: False
            with False nt l Cons show ?thesis by auto
          qed
        qed
      qed
    qed
  qed
qed


lemma surrogatePair_units:
  assumes "isLeadSurrogate u" and "isTrailSurrogate t"
  shows "scalarValue (surrogatePair u t)" and "utf16Units (surrogatePair u t) = [u, t]"
proof -
  define a b where "a = u - 0xD800" and "b = t - 0xDC00"
  from assms have ab: "a < 0x400" "b < 0x400" "u = 0xD800 + a" "t = 0xDC00 + b"
    unfolding a_def b_def by (auto simp: isLeadSurrogate_def isTrailSurrogate_def)
  have p: "surrogatePair u t = a * 0x400 + b + 0x10000"
    by (simp add: surrogatePair_def a_def b_def)
  from ab show "scalarValue (surrogatePair u t)" unfolding p by (simp add: scalarValue_def)
  from ab have "(a * 0x400 + b) div 0x400 = a" "(a * 0x400 + b) mod 0x400 = b" by simp_all
  with ab show "utf16Units (surrogatePair u t) = [u, t]"
    unfolding p by (simp add: utf16Units_def)
qed

lemma codePoints_units:
  assumes "\<forall>u\<in>set us. u < 0x10000" and "codePoints us = Some cps"
  shows "(\<forall>cp\<in>set cps. scalarValue cp) \<and> concat (map utf16Units cps) = us"
  using assms
proof (induction us arbitrary: cps rule: codePoints.induct)
  case 1
  then show ?case by simp
next
  case (2 u us)
  from 2(4) have nt: "\<not> isTrailSurrogate u" by (auto split: if_splits)
  show ?case
  proof (cases "isLeadSurrogate u")
    case False
    with nt 2(4) obtain cps' where c: "codePoints us = Some cps'" "cps = u # cps'"
      by auto
    from 2(3) have "\<forall>u\<in>set us. u < 0x10000" by simp
    from 2(1) [OF nt False this c(1)] have ih: "(\<forall>cp\<in>set cps'. scalarValue cp)"
      "concat (map utf16Units cps') = us" by simp_all
    from False nt 2(3) have "scalarValue u" "utf16Units u = [u]"
      by (auto simp: scalarValue_def utf16Units_def isLeadSurrogate_def isTrailSurrogate_def)
    with ih c show ?thesis by simp
  next
    case True
    with nt 2(4) obtain t ts cps' where c: "us = t # ts" "isTrailSurrogate t"
      "codePoints ts = Some cps'" "cps = surrogatePair u t # cps'"
      by (cases us) (auto split: if_splits)
    from 2(3) c(1) have "\<forall>u\<in>set ts. u < 0x10000" by simp
    from 2(2) [OF nt _ c(1,2) this c(3)] True
    have ih: "(\<forall>cp\<in>set cps'. scalarValue cp)" "concat (map utf16Units cps') = ts" by simp_all
    from surrogatePair_units [OF True c(2)] ih c show ?thesis by simp
  qed
qed

lemma encodePoint_decode:
  assumes "scalarValue cp"
  shows "percentDecode (encodePoint cp @ r)
           = map_option (\<lambda>bs. utf8Octets cp @ bs) (percentDecode r)"
proof (cases "cp < 0x80 \<and> unreserved (char_of cp)")
  case True
  then have "(of_char (char_of cp :: char) :: nat) = cp" by simp
  with True unreserved_ascii [of "char_of cp"] show ?thesis
    by (simp add: encodePoint_def utf8Octets_def)
next
  case False
  from assms have "\<forall>b\<in>set (utf8Octets cp). b < 256"
    by (intro utf8Octets_bytes) (simp add: scalarValue_def)
  from percentDecode_escapes [OF this] False show ?thesis
    by (auto simp: encodePoint_def)
qed

lemma encodePoints_decode:
  assumes "\<forall>cp\<in>set cps. scalarValue cp"
  shows "percentDecode (concat (map encodePoint cps)) = Some (concat (map utf8Octets cps))"
    and "utf8Decode (concat (map utf8Octets cps)) = Some cps"
  using assms
  by (induction cps) (simp_all add: encodePoint_decode utf8Decode_octets)

lemma encodeUnits_roundtrip:
  assumes "\<forall>u\<in>set us. u < 0x10000" and "encodeUnits us = Some t"
  shows "\<exists>cps. percentDecode t = Some (concat (map utf8Octets cps))
           \<and> utf8Decode (concat (map utf8Octets cps)) = Some cps
           \<and> concat (map utf16Units cps) = us"
proof -
  from assms(2) obtain cps where c: "codePoints us = Some cps"
    "t = concat (map encodePoint cps)"
    by (auto simp: encodeUnits_factor)
  from codePoints_units [OF assms(1) c(1)] encodePoints_decode c(2) show ?thesis by blast
qed

lemma decode_encode:
  assumes "encodeURIComponentOfUnits v = Some t"
  shows "decodeURIComponent t = Some v"
proof -
  have "unat w < 0x10000" for w :: "16 word"
    using unsigned_less [of w, where ?'a = nat] by simp
  then have "\<forall>u\<in>set (map unat v). u < 0x10000" by simp
  from encodeUnits_roundtrip [OF this] assms obtain cps where
    "percentDecode t = Some (concat (map utf8Octets cps))"
    "utf8Decode (concat (map utf8Octets cps)) = Some cps"
    "concat (map utf16Units cps) = map unat v"
    by (auto simp: encodeURIComponentOfUnits_def)
  then show ?thesis by (simp add: decodeURIComponent_def comp_def)
qed

lemma encodeUnits_latin1:
  "encodeUnits (map of_char q) = Some (encodeURIComponent q)"
proof (induction q)
  case Nil
  show ?case by (simp add: encodeURIComponent_def)
next
  case (Cons c q)
  define n where "n = (of_char c :: nat)"
  have n: "n < 256" "char_of n = c" unfolding n_def by simp_all
  then have s: "\<not> isTrailSurrogate n" "\<not> isLeadSurrogate n"
    by (simp_all add: isTrailSurrogate_def isLeadSurrogate_def)
  have e: "encodeURIComponent (c # q) = encodeChar c @ encodeURIComponent q"
    by (simp add: encodeURIComponent_def)
  show ?case
  proof (cases "unreserved c")
    case True
    with unreserved_ascii(2) [OF True] n s Cons show ?thesis
      unfolding e by (simp add: n_def [symmetric] encodeChar_def)
  next
    case False
    with n s Cons show ?thesis
      unfolding e
      by (simp add: n_def [symmetric] encodeChar_def utf8Octets_def escapeOctets_def Let_def)
  qed
qed

lemma encodeURIComponentOfUnits_latin1:
  "encodeURIComponentOfUnits (map of_char q) = Some (encodeURIComponent q)"
proof -
  have "unat (of_char c :: 16 word) = of_char c" for c
  proof -
    have "(of_char c :: 16 word) = of_nat (of_char c)" by (simp only: of_nat_of_char)
    then have "unat (of_char c :: 16 word) = of_char c mod 2 ^ 16"
      by (simp only: unat_of_nat) simp
    moreover have "(of_char c :: nat) < 256" by simp
    ultimately show ?thesis by simp
  qed
  then have "map unat (map of_char q :: 16 word list) = (map of_char q :: nat list)"
    by (induction q) simp_all
  then show ?thesis by (simp only: encodeURIComponentOfUnits_def encodeUnits_latin1)
qed

lemma encodePoint_chars:
  assumes "x \<in> set (encodePoint cp)"
  shows "unreserved x \<or> x = CHR ''%'' \<or> x \<in> set hexDigits"
proof (cases "cp < 0x80 \<and> unreserved (char_of cp)")
  case True
  with assms show ?thesis by (simp add: encodePoint_def)
next
  case False
  with assms obtain b where "x \<in> set (percentEscape b)"
    by (auto simp: encodePoint_def escapeOctets_def)
  then show ?thesis using percentEscape_chars by blast
qed

lemma encodeUnits_chars:
  assumes "encodeUnits us = Some t" and "x \<in> set t"
  shows "unreserved x \<or> x = CHR ''%'' \<or> x \<in> set hexDigits"
proof -
  from assms obtain cp where "x \<in> set (encodePoint cp)"
    by (auto simp: encodeUnits_factor)
  then show ?thesis by (rule encodePoint_chars)
qed

lemma encode_unreserved:
  assumes "\<forall>c\<in>set q. unreserved c"
  shows "encodeURIComponent q = q"
  using assms by (induction q) (simp_all add: encodeURIComponent_def encodeChar_def)

lemma forwardUrl_forwardUrlOf:
  "forwardUrl e p = forwardUrlOf e (encodeURIComponent (valueProp p)) p"
  by (simp add: forwardUrl_def forwardUrlOf_def)

lemma doGeocodeOfUnits_latin1:
  "doGeocodeOfUnits e (map of_char (valueProp (props s))) s = (doGeocode e s, None)"
  by (simp add: doGeocodeOfUnits_def doGeocode_def encodeURIComponentOfUnits_latin1
      forwardUrl_forwardUrlOf Let_def)

text \<open>
  Claim C8.  \<open>doGeocode\<close> calls \<open>fetch\<close> at most once, with a URL alone (a GET request):
  once when the query can be encoded, and then the URL is the places endpoint, the
  URL-encoded query, \<open>.json\<close>, the access token, then \<open>&proximity=\<close> and the joined hint
  exactly when a hint is configured, then \<open>&bbox=\<close> and the joined box exactly when a
  bounding box is configured; not at all when \<open>encodeURIComponent\<close> raises, which it does
  exactly on a query that is not well-formed UTF-16.  The query is URL-encoded: read back
  as percent-escaped UTF-8 it is the query; it holds no slash, question mark, ampersand,
  hash, equals sign or space; and a query of unreserved characters is left as it is.  The
  \<open>doGeocode\<close> of the state machine is this function on queries of code units below 256.
  The reverse geocoding effect, when the map is at rest, calls \<open>fetch\<close> once: the endpoint,
  longitude, comma, latitude, \<open>.json\<close> and the access token, nothing more.  No continuation
  and no timer fetches anything: there is no retry.
\<close>

theorem request_shapes:
  "fetched (trace (fst (doGeocodeOfUnits e v s)))
     = fetched (trace s)
         @ (case encodeURIComponentOfUnits v of
              None \<Rightarrow> []
            | Some query \<Rightarrow>
                [''https://api.mapbox.com/geocoding/v5/mapbox.places/''
                   @ query @ ''.json?access_token='' @ MAP_PROVIDER_TOKEN e
                   @ (case geocodeHint (props s) of
                        None \<Rightarrow> []
                      | Some h \<Rightarrow> ''&proximity='' @ join '','' (map (numberToString e) (items h)))
                   @ (case geocodeBoundingBox (props s) of
                        None \<Rightarrow> []
                      | Some b \<Rightarrow> ''&bbox='' @ join '','' (map (numberToString e) (items b)))])
   \<and> (encodeURIComponentOfUnits v = None) = (codePoints (map unat v) = None)
   \<and> (encodeURIComponentOfUnits v = Some query \<longrightarrow>
        decodeURIComponent query = Some v \<and> set query \<inter> set ''/?&#= '' = {})
   \<and> ((\<forall>c\<in>set q. unreserved c) \<longrightarrow> encodeURIComponent q = q)
   \<and> encodeURIComponentOfUnits (map of_char q) = Some (encodeURIComponent q)
   \<and> doGeocodeOfUnits e (map of_char (valueProp (props s))) s = (doGeocode e s, None)
   \<and> fetched (trace (doGeocode e s)) = fetched (trace s) @ [forwardUrl e (props s)]
   \<and> forwardUrl e p =
       ''https://api.mapbox.com/geocoding/v5/mapbox.places/''
         @ encodeURIComponent (valueProp p) @ ''.json?access_token='' @ MAP_PROVIDER_TOKEN e
         @ (case geocodeHint p of
              None \<Rightarrow> []
            | Some h \<Rightarrow> ''&proximity='' @ join '','' (map (numberToString e) (items h)))
         @ (case geocodeBoundingBox p of
              None \<Rightarrow> []
            | Some b \<Rightarrow> ''&bbox='' @ join '','' (map (numberToString e) (items b)))
   \<and> set (encodeURIComponent q) \<inter> set ''/?&#= '' = {}
   \<and> (\<not> isMapDraggingOrZooming (props s) \<longrightarrow>
        fetched (trace (reverseGeocodeEffect e s)) =
          fetched (trace s)
            @ [''https://api.mapbox.com/geocoding/v5/mapbox.places/''
                 @ numberToString e (longitude (mapViewport (props s))) @ '',''
                 @ numberToString e (latitude (mapViewport (props s)))
                 @ ''.json?access_token='' @ MAP_PROVIDER_TOKEN e])
   \<and> fetched (trace (step e s (Settle i out))) = fetched (trace s)
   \<and> fetched (trace (step e s (Advance d))) = fetched (trace s)"
proof (intro conjI impI)
  show "fetched (trace (fst (doGeocodeOfUnits e v s)))
     = fetched (trace s)
         @ (case encodeURIComponentOfUnits v of
              None \<Rightarrow> []
            | Some query \<Rightarrow>
                [''https://api.mapbox.com/geocoding/v5/mapbox.places/''
                   @ query @ ''.json?access_token='' @ MAP_PROVIDER_TOKEN e
                   @ (case geocodeHint (props s) of
                        None \<Rightarrow> []
                      | Some h \<Rightarrow> ''&proximity='' @ join '','' (map (numberToString e) (items h)))
                   @ (case geocodeBoundingBox (props s) of
                        None \<Rightarrow> []
                      | Some b \<Rightarrow> ''&bbox='' @ join '','' (map (numberToString e) (items b)))])"
    by (simp add: doGeocodeOfUnits_def forwardUrlOf_def endpoint_def joinNumbers_def
        setter_defs fetched_simps split: option.splits)
  show "(encodeURIComponentOfUnits v = None) = (codePoints (map unat v) = None)"
    by (simp add: encodeURIComponentOfUnits_def encodeUnits_factor)
  show "(\<forall>c\<in>set q. unreserved c) \<Longrightarrow> encodeURIComponent q = q"
    by (rule encode_unreserved)
  show "encodeURIComponentOfUnits (map of_char q) = Some (encodeURIComponent q)"
    by (rule encodeURIComponentOfUnits_latin1)
  show "doGeocodeOfUnits e (map of_char (valueProp (props s))) s = (doGeocode e s, None)"
    by (rule doGeocodeOfUnits_latin1)
  show "fetched (trace (doGeocode e s)) = fetched (trace s) @ [forwardUrl e (props s)]"
    by (simp add: doGeocode_def setter_defs fetched_simps)
  show "forwardUrl e p =
       ''https://api.mapbox.com/geocoding/v5/mapbox.places/''
         @ encodeURIComponent (valueProp p) @ ''.json?access_token='' @ MAP_PROVIDER_TOKEN e
         @ (case geocodeHint p of
              None \<Rightarrow> []
            | Some h \<Rightarrow> ''&proximity='' @ join '','' (map (numberToString e) (items h)))
         @ (case geocodeBoundingBox p of
              None \<Rightarrow> []
            | Some b \<Rightarrow> ''&bbox='' @ join '','' (map (numberToString e) (items b)))"
    by (simp add: forwardUrl_def endpoint_def joinNumbers_def split: option.splits)
  show "set (encodeURIComponent q) \<inter> set ''/?&#= '' = {}"
    using encodeURIComponent_chars [of _ q] reserved_not_encoded by blast
  show "fetched (trace (step e s (Settle i out))) = fetched (trace s)"
    by (simp add: fetched_settle)
  show "fetched (trace (step e s (Advance d))) = fetched (trace s)"
    by (simp add: advance_def fetched_fold_timer Let_def)
next
  assume "encodeURIComponentOfUnits v = Some query"
  then show "decodeURIComponent query = Some v" by (rule decode_encode)
next
  assume "encodeURIComponentOfUnits v = Some query"
  then have "encodeUnits (map unat v) = Some query"
    by (simp add: encodeURIComponentOfUnits_def)
  from encodeUnits_chars [OF this] reserved_not_encoded
  show "set query \<inter> set ''/?&#= '' = {}" by blast
next
  assume "\<not> isMapDraggingOrZooming (props s)"
  then show "fetched (trace (reverseGeocodeEffect e s)) =
          fetched (trace s)
            @ [''https://api.mapbox.com/geocoding/v5/mapbox.places/''
                 @ numberToString e (longitude (mapViewport (props s))) @ '',''
                 @ numberToString e (latitude (mapViewport (props s)))
                 @ ''.json?access_token='' @ MAP_PROVIDER_TOKEN e]"
    by (simp add: reverseGeocodeEffect_def reverseUrl_def endpoint_def setter_defs
        fetched_simps)
qed

lemmas encoder_defs =
  encodeURIComponentOfUnits_def utf8Octets_def escapeOctets_def isLeadSurrogate_def
  isTrailSurrogate_def surrogatePair_def

lemmas decoder_defs =
  decodeURIComponent_def hexValue_def isContinuation_def utf16Units_def Let_def

theorem request_shapes_witness:
  "encodeURIComponentOfUnits [0x20AC] = Some ''%E2%82%AC''
   \<and> encodeURIComponentOfUnits [0xD83D, 0xDE00] = Some ''%F0%9F%98%80''
   \<and> decodeURIComponent ''%F0%9F%98%80'' = Some [0xD83D, 0xDE00]
   \<and> encodeURIComponentOfUnits [0xD83D] = None
   \<and> codePoints (map unat [0xD83D :: 16 word]) = None
   \<and> fetched (trace (fst (doGeocodeOfUnits exampleEnv [0xD83D] (initial exampleProps)))) = []
   \<and> fetched (trace (fst (doGeocodeOfUnits exampleEnv [0x20AC] (initial exampleProps))))
       = [''https://api.mapbox.com/geocoding/v5/mapbox.places/%E2%82%AC.json?access_token=pk.test'']
   \<and> encodeURIComponent (''Caf'' @ [CHR 0xE9] @ '' & Bar/#1?'')
       = ''Caf%C3%A9%20%26%20Bar%2F%231%3F''
   \<and> encodeURIComponent ''Pike-Place_98101.!~*()'' = ''Pike-Place_98101.!~*()''
   \<and> \<not> isMapDraggingOrZooming (props (initial (exampleProps\<lparr>isMapDraggingOrZooming := False\<rparr>)))
   \<and> fetched (trace (reverseGeocodeEffect exampleEnv
                       (initial (exampleProps\<lparr>isMapDraggingOrZooming := False\<rparr>))))
       = [''https://api.mapbox.com/geocoding/v5/mapbox.places/-122,47.json?access_token=pk.test'']
   \<and> forwardUrl exampleEnv
         (exampleProps\<lparr>geocodeHint := Some \<lparr>arrayRef = 1, items = [- 122, 47]\<rparr>,
                        geocodeBoundingBox :=
                          Some \<lparr>arrayRef = 2, items = [- 123, 46, - 121, 48]\<rparr>\<rparr>)
       = ''https://api.mapbox.com/geocoding/v5/mapbox.places/123%20Main%20St.json?access_token=pk.test&proximity=-122,47&bbox=-123,46,-121,48''
   \<and> forwardUrl exampleEnv exampleProps
       = ''https://api.mapbox.com/geocoding/v5/mapbox.places/123%20Main%20St.json?access_token=pk.test''"
proof -
  have e1: "encodeURIComponentOfUnits [0x20AC] = Some ''%E2%82%AC''"
    by (simp add: encoder_defs url_defs)
  have e2: "encodeURIComponentOfUnits [0xD83D, 0xDE00] = Some ''%F0%9F%98%80''"
    by (simp add: encoder_defs url_defs)
  have e3: "encodeURIComponentOfUnits [0xD83D] = None"
    by (simp add: encoder_defs url_defs)
  have e4: "encodeURIComponent (''Caf'' @ [CHR 0xE9] @ '' & Bar/#1?'')
       = ''Caf%C3%A9%20%26%20Bar%2F%231%3F''"
    by (simp add: url_defs)
  have u: "\<forall>c\<in>set ''Pike-Place_98101.!~*()''. unreserved c"
    by (simp add: unreserved_def)
  have r: "\<not> isMapDraggingOrZooming
               (props (initial (exampleProps\<lparr>isMapDraggingOrZooming := False\<rparr>)))"
    by (simp add: initial_def)
  note a = request_shapes [of exampleEnv "[0x20AC]" "initial exampleProps" "''%E2%82%AC''"
      "''Pike-Place_98101.!~*()''" exampleProps 0 Rejected 0]
  note b = request_shapes [of exampleEnv "[0xD83D, 0xDE00]"
      "initial (exampleProps\<lparr>isMapDraggingOrZooming := False\<rparr>)" "''%F0%9F%98%80''"
      "''123 Main St''"
      "exampleProps\<lparr>geocodeHint := Some \<lparr>arrayRef = 1, items = [- 122, 47]\<rparr>,
                     geocodeBoundingBox :=
                       Some \<lparr>arrayRef = 2, items = [- 123, 46, - 121, 48]\<rparr>\<rparr>"
      0 Rejected 0]
  note c = request_shapes [of exampleEnv "[0xD83D]" "initial exampleProps" "[]" "[]"
      exampleProps 0 Rejected 0]
  from a e1 u have
    a1: "fetched (trace (fst (doGeocodeOfUnits exampleEnv [0x20AC] (initial exampleProps))))
       = [''https://api.mapbox.com/geocoding/v5/mapbox.places/%E2%82%AC.json?access_token=pk.test'']"
    and a2: "encodeURIComponent ''Pike-Place_98101.!~*()'' = ''Pike-Place_98101.!~*()''"
    and a3: "forwardUrl exampleEnv exampleProps
       = ''https://api.mapbox.com/geocoding/v5/mapbox.places/123%20Main%20St.json?access_token=pk.test''"
    by (simp_all add: initial_def example_defs url_defs fetched_Nil)
  from b e2 r have
    b1: "decodeURIComponent ''%F0%9F%98%80'' = Some [0xD83D, 0xDE00]"
    and b2: "fetched (trace (reverseGeocodeEffect exampleEnv
                       (initial (exampleProps\<lparr>isMapDraggingOrZooming := False\<rparr>))))
       = [''https://api.mapbox.com/geocoding/v5/mapbox.places/-122,47.json?access_token=pk.test'']"
    and b3: "forwardUrl exampleEnv
         (exampleProps\<lparr>geocodeHint := Some \<lparr>arrayRef = 1, items = [- 122, 47]\<rparr>,
                        geocodeBoundingBox :=
                          Some \<lparr>arrayRef = 2, items = [- 123, 46, - 121, 48]\<rparr>\<rparr>)
       = ''https://api.mapbox.com/geocoding/v5/mapbox.places/123%20Main%20St.json?access_token=pk.test&proximity=-122,47&bbox=-123,46,-121,48''"
    by (simp_all add: initial_def example_defs url_defs fetched_Nil)
  from c e3 have
    c1: "codePoints (map unat [0xD83D :: 16 word]) = None"
    and c2: "fetched (trace (fst (doGeocodeOfUnits exampleEnv [0xD83D] (initial exampleProps))))
       = []"
    by (simp_all add: initial_def fetched_Nil)
  from e1 e2 e3 e4 r a1 a2 a3 b1 b2 b3 c1 c2 show ?thesis by blast
qed

end
